theory Spec2Isabelle
  imports Main "HOL-Library.Multiset" "HOL-Library.Char_ord" "HOL-Library.List_Lexorder"
    "HOL-Library.Product_Lexorder"
begin

section \<open>The store: departments and employees\<close>

text \<open>
  The rows of \<^verbatim>\<open>app/models/department.py\<close> and \<^verbatim>\<open>app/models/employee.py\<close>. Both
  classes have columns \<^verbatim>\<open>id\<close> and \<^verbatim>\<open>created_at\<close>, so the columns carry the prefix
  \<open>d_\<close> or \<open>e_\<close>. Integer columns are Python's unbounded \<open>int\<close>; a timestamp and a
  date are integers (only their order is used); \<^verbatim>\<open>str\<close> is \<open>string\<close>, compared by
  character code as Python compares.
\<close>

record department =
  d_id :: int
  d_name :: string
  d_parent_id :: "int option"
  d_created_at :: int

record employee =
  e_id :: int
  e_department_id :: int
  e_full_name :: string
  e_position :: string
  e_hired_at :: "int option"
  e_created_at :: int

text \<open>
  A table is the list of its rows in insertion order. The two \<^verbatim>\<open>autoincrement\<close>
  primary keys are drawn from a counter each.
\<close>

record db =
  departments :: "department list"
  employees :: "employee list"
  departments_id_seq :: int
  employees_id_seq :: int

text \<open>
  \<^verbatim>\<open>app/db/session.py\<close>: every request gets a session of its own
  (\<^verbatim>\<open>get_db\<close>), with \<^verbatim>\<open>autocommit=False\<close>. Statements act on the transaction's view
  of the store (\<open>working\<close>); \<^verbatim>\<open>db.commit()\<close> makes that view the stored one;
  \<^verbatim>\<open>db.close()\<close> at the end of the request drops whatever was not committed.
\<close>

record session =
  committed :: db
  working :: db

definition open_session :: "db \<Rightarrow> session" where
  "open_session s = \<lparr>committed = s, working = s\<rparr>"

definition db_commit :: "session \<Rightarrow> session" where
  "db_commit sess = sess\<lparr>committed := working sess\<rparr>"

definition db_close :: "session \<Rightarrow> db" where
  "db_close sess = committed sess"

definition empty_db :: db where
  "empty_db = \<lparr>departments = [], employees = [], departments_id_seq = 1, employees_id_seq = 1\<rparr>"

text \<open>
  The exceptions of \<^verbatim>\<open>app/services/department.py\<close>, Python's \<^verbatim>\<open>ValueError\<close>,
  SQLAlchemy's \<^verbatim>\<open>IntegrityError\<close> (a statement that breaks a constraint of the table)
  and \<^verbatim>\<open>CircularDependencyError\<close> (a flush whose statements cannot be ordered), and
  pydantic's \<^verbatim>\<open>ValidationError\<close>.
\<close>

datatype error =
  DepartmentNotFoundError | ConflictError | ValueError | IntegrityError
  | CircularDependencyError | ValidationError

subsection \<open>Constraints of the departments table\<close>

text \<open>
  \<^verbatim>\<open>UniqueConstraint("name", "parent_id", name="uq_department_name_parent")\<close> of the model:
  two rows with the same name and the same non-null parent cannot coexist (SQL compares
  a null parent as distinct from every other). A row of the table other than \<open>r\<close> itself
  is told apart by its primary key.
\<close>

definition uq_department_name_parent :: "department list \<Rightarrow> department \<Rightarrow> bool" where
  "uq_department_name_parent rows r =
     (\<not> list_ex (\<lambda>r'. d_id r' \<noteq> d_id r \<and> d_name r' = d_name r \<and>
                       d_parent_id r \<noteq> None \<and> d_parent_id r' = d_parent_id r) rows)"

text \<open>
  The partial unique index \<^verbatim>\<open>uq_departments_name_root\<close> of the migration
  (\<^verbatim>\<open>alembic/versions/001_initial_departments_employees.py\<close>): unique names where
  \<^verbatim>\<open>parent_id IS NULL\<close>.
\<close>

definition uq_departments_name_root :: "department list \<Rightarrow> department \<Rightarrow> bool" where
  "uq_departments_name_root rows r =
     (\<not> list_ex (\<lambda>r'. d_id r' \<noteq> d_id r \<and> d_name r' = d_name r \<and>
                       d_parent_id r = None \<and> d_parent_id r' = None) rows)"

text \<open>A written row is accepted when it breaks neither index.\<close>

definition row_accepted :: "department list \<Rightarrow> department \<Rightarrow> bool" where
  "row_accepted rows r = (uq_department_name_parent rows r \<and> uq_departments_name_root rows r)"

subsection \<open>Reading\<close>

text \<open>\<^verbatim>\<open>_get_department\<close>: \<^verbatim>\<open>db.get(Department, department_id)\<close>.\<close>

definition get_department :: "session \<Rightarrow> int \<Rightarrow> department option" where
  "get_department sess department_id =
     find (\<lambda>d. d_id d = department_id) (departments (working sess))"

text \<open>
  \<^verbatim>\<open>select(Department.id).where(Department.parent_id == current)\<close>, the query of
  \<^verbatim>\<open>_get_descendant_ids\<close>, and the relationship \<^verbatim>\<open>Department.children\<close>.
\<close>

definition child_ids :: "department list \<Rightarrow> int \<Rightarrow> int list" where
  "child_ids rows current = map d_id (filter (\<lambda>d. d_parent_id d = Some current) rows)"

definition children :: "session \<Rightarrow> department \<Rightarrow> department list" where
  "children sess dept =
     filter (\<lambda>d. d_parent_id d = Some (d_id dept)) (departments (working sess))"

text \<open>The relationship \<^verbatim>\<open>Department.employees\<close>.\<close>

definition employees_of :: "session \<Rightarrow> department \<Rightarrow> employee list" where
  "employees_of sess dept =
     filter (\<lambda>e. e_department_id e = d_id dept) (employees (working sess))"

text \<open>
  \<^verbatim>\<open>_get_descendant_ids\<close>: the \<^verbatim>\<open>while stack\<close> loop. \<^verbatim>\<open>stack.pop()\<close> takes the last
  element and the children are appended at the end; \<open>result\<close> is a Python set. The loop
  keeps no record of the ids it has expanded, so it need not end: not returning is the
  value \<open>None\<close>.
\<close>

partial_function (option) get_descendant_ids_loop ::
  "department list \<Rightarrow> int list \<Rightarrow> int set \<Rightarrow> int set option" where
  "get_descendant_ids_loop rows stack result =
     (if stack = [] then Some result
      else get_descendant_ids_loop rows
             (butlast stack @ child_ids rows (last stack))
             (result \<union> set (child_ids rows (last stack))))"

definition get_descendant_ids :: "session \<Rightarrow> int \<Rightarrow> int set option" where
  "get_descendant_ids sess department_id =
     get_descendant_ids_loop (departments (working sess)) [department_id] {}"

text \<open>
  \<^verbatim>\<open>_check_name_unique_under_parent\<close>: the query for a row with this name and this
  parent (\<^verbatim>\<open>parent_id == None\<close> is rendered \<^verbatim>\<open>IS NULL\<close>), other than the excluded id.
\<close>

definition check_name_unique_under_parent ::
  "session \<Rightarrow> string \<Rightarrow> int option \<Rightarrow> int option \<Rightarrow> error + unit" where
  "check_name_unique_under_parent sess name parent_id exclude_department_id =
     (let existing =
        find (\<lambda>d. d_name d = name \<and> d_parent_id d = parent_id \<and>
                  (case exclude_department_id of None \<Rightarrow> True | Some x \<Rightarrow> d_id d \<noteq> x))
          (departments (working sess))
      in if existing \<noteq> None then Inl ConflictError else Inr ())"

section \<open>Creating\<close>

record DepartmentCreate =
  dc_name :: string
  dc_parent_id :: "int option"

record EmployeeCreate =
  ec_full_name :: string
  ec_position :: string
  ec_hired_at :: "int option"

text \<open>
  \<^verbatim>\<open>db.add(department)\<close> and the INSERT that the flush of \<^verbatim>\<open>db.commit()\<close> issues: the
  row gets the next id and \<^verbatim>\<open>created_at = now()\<close> (the server's clock, a parameter
  here); the insert is refused when an existing row holds the same slot.
\<close>

definition insert_department ::
  "session \<Rightarrow> string \<Rightarrow> int option \<Rightarrow> int \<Rightarrow> error + (department \<times> session)" where
  "insert_department sess name parent_id now =
     (let w = working sess;
          r = \<lparr>d_id = departments_id_seq w, d_name = name, d_parent_id = parent_id,
               d_created_at = now\<rparr>
      in if list_ex (\<lambda>r'. d_name r' = name \<and> d_parent_id r' = parent_id) (departments w)
         then Inl IntegrityError
         else Inr (r, sess\<lparr>working := w\<lparr>departments := departments w @ [r],
                                          departments_id_seq := departments_id_seq w + 1\<rparr>\<rparr>))"

definition insert_employee :: "session \<Rightarrow> int \<Rightarrow> EmployeeCreate \<Rightarrow> int \<Rightarrow> employee \<times> session" where
  "insert_employee sess department_id data now =
     (let w = working sess;
          e = \<lparr>e_id = employees_id_seq w, e_department_id = department_id,
               e_full_name = ec_full_name data, e_position = ec_position data,
               e_hired_at = ec_hired_at data, e_created_at = now\<rparr>
      in (e, sess\<lparr>working := w\<lparr>employees := employees w @ [e],
                                employees_id_seq := employees_id_seq w + 1\<rparr>\<rparr>))"

text \<open>\<^verbatim>\<open>create_department\<close>. An exception leaves the session as it is, uncommitted.\<close>

definition create_department ::
  "session \<Rightarrow> DepartmentCreate \<Rightarrow> int \<Rightarrow> (error + department) \<times> session" where
  "create_department sess data now =
     (if dc_parent_id data \<noteq> None \<and> get_department sess (the (dc_parent_id data)) = None
      then (Inl DepartmentNotFoundError, sess)
      else case check_name_unique_under_parent sess (dc_name data) (dc_parent_id data) None of
        Inl e \<Rightarrow> (Inl e, sess)
      | Inr _ \<Rightarrow>
          (case insert_department sess (dc_name data) (dc_parent_id data) now of
             Inl e \<Rightarrow> (Inl e, sess)
           | Inr (department, sess') \<Rightarrow> (Inr department, db_commit sess')))"

text \<open>\<^verbatim>\<open>create_employee\<close>.\<close>

definition create_employee ::
  "session \<Rightarrow> int \<Rightarrow> EmployeeCreate \<Rightarrow> int \<Rightarrow> (error + employee) \<times> session" where
  "create_employee sess department_id data now =
     (if get_department sess department_id = None
      then (Inl DepartmentNotFoundError, sess)
      else case insert_employee sess department_id data now of
             (employee, sess') \<Rightarrow> (Inr employee, db_commit sess'))"

section \<open>Updating\<close>

text \<open>
  The body of a PATCH request, before pydantic reads it: a field of the JSON object is
  left out, is \<^verbatim>\<open>null\<close>, or holds a value.
\<close>

datatype 'a body_field = Omitted | Null | Given 'a

record DepartmentUpdateBody =
  body_name :: "string body_field"
  body_parent_id :: "int body_field"

text \<open>\<^verbatim>\<open>DepartmentUpdate\<close> of \<^verbatim>\<open>app/schemas/department.py\<close>, as the service receives it.\<close>

record DepartmentUpdate =
  du_name :: "string option"
  du_parent_id :: "int option"

text \<open>
  \<^verbatim>\<open>str.strip()\<close>: the whitespace of Python among the characters a \<open>char\<close> can hold
  (codes 9 to 13, 28 to 32, 133 and 160).
\<close>

definition is_space :: "char \<Rightarrow> bool" where
  "is_space c = ((of_char c :: nat) \<in> {9, 10, 11, 12, 13, 28, 29, 30, 31, 32, 133, 160})"

definition strip :: "string \<Rightarrow> string" where
  "strip v = rev (dropWhile is_space (rev (dropWhile is_space v)))"

text \<open>
  The validators of \<^verbatim>\<open>DepartmentUpdate\<close>. A field left out takes its default
  \<^verbatim>\<open>None\<close>. \<^verbatim>\<open>trim_name\<close> runs before the field's own checks and returns
  \<^verbatim>\<open>v.strip() or None\<close>; then \<^verbatim>\<open>min_length=1, max_length=200\<close> and
  \<^verbatim>\<open>name_not_empty_if_present\<close> apply to a string.
\<close>

definition trim_name :: "string body_field \<Rightarrow> string option" where
  "trim_name v = (case v of
       Omitted \<Rightarrow> None
     | Null \<Rightarrow> None
     | Given s \<Rightarrow> (if strip s = [] then None else Some (strip s)))"

definition validate_update :: "DepartmentUpdateBody \<Rightarrow> error + DepartmentUpdate" where
  "validate_update body =
     (let name = trim_name (body_name body);
          parent_id = (case body_parent_id body of
                         Omitted \<Rightarrow> None | Null \<Rightarrow> None | Given i \<Rightarrow> Some i)
      in case name of
           None \<Rightarrow> Inr \<lparr>du_name = None, du_parent_id = parent_id\<rparr>
         | Some s \<Rightarrow>
             if length s < 1 \<or> 200 < length s \<or> s = [] then Inl ValidationError
             else Inr \<lparr>du_name = Some s, du_parent_id = parent_id\<rparr>)"

text \<open>Lines 156 and 157 of \<^verbatim>\<open>update_department\<close>: the effective new parent and name.\<close>

definition new_parent_id :: "DepartmentUpdate \<Rightarrow> department \<Rightarrow> int option" where
  "new_parent_id data department =
     (if du_parent_id data \<noteq> None then du_parent_id data else d_parent_id department)"

definition new_name :: "DepartmentUpdate \<Rightarrow> department \<Rightarrow> string" where
  "new_name data department =
     (if du_name data \<noteq> None then the (du_name data) else d_name department)"

text \<open>
  The UPDATE that the flush of \<^verbatim>\<open>db.commit()\<close> issues for the changed object: the row
  with this primary key gets the new name and parent, unless an index refuses it.
\<close>

definition set_name_parent :: "int \<Rightarrow> string \<Rightarrow> int option \<Rightarrow> department \<Rightarrow> department" where
  "set_name_parent department_id name parent_id d =
     (if d_id d = department_id then d\<lparr>d_name := name, d_parent_id := parent_id\<rparr> else d)"

definition update_row ::
  "session \<Rightarrow> department \<Rightarrow> string \<Rightarrow> int option \<Rightarrow> error + (department \<times> session)" where
  "update_row sess department name parent_id =
     (let w = working sess;
          rows = map (set_name_parent (d_id department) name parent_id) (departments w);
          r = department\<lparr>d_name := name, d_parent_id := parent_id\<rparr>
      in if row_accepted rows r
         then Inr (r, sess\<lparr>working := w\<lparr>departments := rows\<rparr>\<rparr>)
         else Inl IntegrityError)"

text \<open>
  \<^verbatim>\<open>update_department\<close>. The result is \<open>None\<close> when the call does not return, which
  can only come from the loop of \<^verbatim>\<open>_get_descendant_ids\<close>.
\<close>

definition update_department ::
  "session \<Rightarrow> int \<Rightarrow> DepartmentUpdate \<Rightarrow> ((error + department) \<times> session) option" where
  "update_department sess department_id data =
     (case get_department sess department_id of
        None \<Rightarrow> Some (Inl DepartmentNotFoundError, sess)
      | Some department \<Rightarrow>
          (let npid = new_parent_id data department;
               nname = new_name data department;
               rest = (case check_name_unique_under_parent sess nname npid (Some department_id) of
                         Inl e \<Rightarrow> (Inl e, sess)
                       | Inr _ \<Rightarrow>
                           (case update_row sess department nname npid of
                              Inl e \<Rightarrow> (Inl e, sess)
                            | Inr (department', sess') \<Rightarrow> (Inr department', db_commit sess')))
           in if npid = Some department_id then Some (Inl ConflictError, sess)
              else case npid of
                None \<Rightarrow> Some rest
              | Some p \<Rightarrow>
                  (case get_descendant_ids sess department_id of
                     None \<Rightarrow> None
                   | Some descendants \<Rightarrow>
                       if p \<in> descendants then Some (Inl ConflictError, sess)
                       else if get_department sess p = None
                         then Some (Inl DepartmentNotFoundError, sess)
                         else Some rest)))"

text \<open>\<^verbatim>\<open>patch_department\<close> of \<^verbatim>\<open>app/api/departments.py\<close>: validation, then the service.\<close>

definition patch_department ::
  "session \<Rightarrow> int \<Rightarrow> DepartmentUpdateBody \<Rightarrow> ((error + department) \<times> session) option" where
  "patch_department sess department_id body =
     (case validate_update body of
        Inl e \<Rightarrow> Some (Inl e, sess)
      | Inr data \<Rightarrow> update_department sess department_id data)"

section \<open>Deleting\<close>

text \<open>
  \<^verbatim>\<open>db.delete(department)\<close>. Both relationships of \<^verbatim>\<open>Department\<close> are declared
  \<^verbatim>\<open>cascade="all, delete-orphan"\<close>: the unit of work loads the children of every object
  it deletes and deletes them too, each object once, and so on down; the employees of
  every deleted department go with it. \<open>cascade_ids\<close> collects the ids so reached.
\<close>

function cascade_ids :: "department list \<Rightarrow> int list \<Rightarrow> int list \<Rightarrow> int list" where
  "cascade_ids rows [] visited = visited"
| "cascade_ids rows (x # todo) visited =
     (if x \<in> set visited then cascade_ids rows todo visited
      else cascade_ids rows (child_ids rows x @ todo) (x # visited))"
  by pat_completeness auto

lemma child_ids_subset: "set (child_ids rows x) \<subseteq> d_id ` set rows"
  by (auto simp: child_ids_def)

termination cascade_ids
proof (relation "measures [\<lambda>(rows, todo, visited). card ((d_id ` set rows \<union> set todo) - set visited),
                            \<lambda>(rows, todo, visited). length todo]")
  show "wf (measures [\<lambda>(rows, todo, visited). card ((d_id ` set rows \<union> set todo) - set visited),
                      \<lambda>(rows, todo, visited). length todo])"
    by simp
next
  fix rows :: "department list" and x :: int and todo visited :: "int list"
  assume "x \<in> set visited"
  then have "(d_id ` set rows \<union> set (x # todo)) - set visited
             = (d_id ` set rows \<union> set todo) - set visited"
    by auto
  then show "((rows, todo, visited), (rows, x # todo, visited))
        \<in> measures [\<lambda>(rows, todo, visited). card ((d_id ` set rows \<union> set todo) - set visited),
                     \<lambda>(rows, todo, visited). length todo]"
    by simp
next
  fix rows :: "department list" and x :: int and todo visited :: "int list"
  assume x: "x \<notin> set visited"
  let ?old = "(d_id ` set rows \<union> set (x # todo)) - set visited"
  let ?new = "(d_id ` set rows \<union> set (child_ids rows x @ todo)) - set (x # visited)"
  have "?new \<subseteq> ?old - {x}"
    using child_ids_subset [of rows x] by auto
  moreover have "x \<in> ?old" using x by simp
  ultimately have "?new \<subset> ?old" by blast
  moreover have "finite ?old" by simp
  ultimately have "card ?new < card ?old" by (rule psubset_card_mono [rotated])
  then show "((rows, child_ids rows x @ todo, x # visited), (rows, x # todo, visited))
        \<in> measures [\<lambda>(rows, todo, visited). card ((d_id ` set rows \<union> set todo) - set visited),
                     \<lambda>(rows, todo, visited). length todo]"
    by simp
qed

text \<open>
  The rows that go, and what the foreign keys do to the rest: \<^verbatim>\<open>ondelete="SET NULL"\<close>
  on \<^verbatim>\<open>departments.parent_id\<close>, \<^verbatim>\<open>ondelete="CASCADE"\<close> on
  \<^verbatim>\<open>employees.department_id\<close>.
\<close>

definition delete_rows :: "session \<Rightarrow> department \<Rightarrow> session" where
  "delete_rows sess department =
     (let w = working sess;
          gone = cascade_ids (departments w) [d_id department] [];
          kept = filter (\<lambda>d. d_id d \<notin> set gone) (departments w)
      in sess\<lparr>working := w\<lparr>
           departments :=
             map (\<lambda>d. if d_parent_id d \<noteq> None \<and> the (d_parent_id d) \<in> set gone
                       then d\<lparr>d_parent_id := None\<rparr> else d) kept,
           employees := filter (\<lambda>e. e_department_id e \<notin> set gone) (employees w)\<rparr>\<rparr>)"

text \<open>
  The flush orders its DELETE statements so that a department's row goes after the rows
  of its children. When one of the departments to delete is its own ancestor no such
  order exists: the flush raises \<^verbatim>\<open>CircularDependencyError\<close> and sends no statement.
  \<open>cascade_cycle\<close> looks, for each id to delete, whether the id is reached again from its
  own children.
\<close>

definition cascade_cycle :: "department list \<Rightarrow> int list \<Rightarrow> bool" where
  "cascade_cycle rows gone =
     list_ex (\<lambda>x. x \<in> set (cascade_ids rows (child_ids rows x) [])) gone"

text \<open>\<^verbatim>\<open>db.delete(department)\<close> with the flush that \<^verbatim>\<open>db.commit()\<close> starts with.\<close>

definition db_delete :: "session \<Rightarrow> department \<Rightarrow> error + session" where
  "db_delete sess department =
     (let rows = departments (working sess)
      in if cascade_cycle rows (cascade_ids rows [d_id department] [])
         then Inl CircularDependencyError
         else Inr (delete_rows sess department))"

text \<open>
  The two bulk statements of the reassign mode. The first, on employees, meets no
  constraint (the target exists). The second rewrites \<^verbatim>\<open>parent_id\<close> and is refused when
  a rewritten row would share its name with another row under the target.
\<close>

definition reassign_employees :: "session \<Rightarrow> int \<Rightarrow> int \<Rightarrow> session" where
  "reassign_employees sess department_id target_id =
     (let w = working sess
      in sess\<lparr>working := w\<lparr>employees :=
           map (\<lambda>e. if e_department_id e = department_id
                     then e\<lparr>e_department_id := target_id\<rparr> else e) (employees w)\<rparr>\<rparr>)"

definition set_parent :: "int \<Rightarrow> int \<Rightarrow> department \<Rightarrow> department" where
  "set_parent department_id target_id d =
     (if d_parent_id d = Some department_id then d\<lparr>d_parent_id := Some target_id\<rparr> else d)"

definition reassign_children :: "session \<Rightarrow> int \<Rightarrow> int \<Rightarrow> error + session" where
  "reassign_children sess department_id target_id =
     (let w = working sess;
          rows = map (set_parent department_id target_id) (departments w)
      in if list_all (\<lambda>d. d_parent_id d = Some department_id \<longrightarrow>
                            row_accepted rows (set_parent department_id target_id d))
              (departments w)
         then Inr (sess\<lparr>working := w\<lparr>departments := rows\<rparr>\<rparr>)
         else Inl IntegrityError)"

text \<open>\<^verbatim>\<open>delete_department\<close>.\<close>

definition delete_department ::
  "session \<Rightarrow> int \<Rightarrow> string \<Rightarrow> int option \<Rightarrow> (error + unit) \<times> session" where
  "delete_department sess department_id mode reassign_to_department_id =
     (case get_department sess department_id of
        None \<Rightarrow> (Inl DepartmentNotFoundError, sess)
      | Some department \<Rightarrow>
          if mode = ''cascade'' then
            (case db_delete sess department of
               Inl e \<Rightarrow> (Inl e, sess)
             | Inr sess' \<Rightarrow> (Inr (), db_commit sess'))
          else if mode = ''reassign'' then
            (case reassign_to_department_id of
               None \<Rightarrow> (Inl ValueError, sess)
             | Some target_id \<Rightarrow>
                 if get_department sess target_id = None
                   then (Inl DepartmentNotFoundError, sess)
                 else if target_id = department_id then (Inl ConflictError, sess)
                 else
                   (let sess1 = reassign_employees sess department_id target_id
                    in case reassign_children sess1 department_id target_id of
                         Inl e \<Rightarrow> (Inl e, sess1)
                       | Inr sess2 \<Rightarrow>
                           (case db_delete sess2 department of
                              Inl e \<Rightarrow> (Inl e, sess2)
                            | Inr sess3 \<Rightarrow> (Inr (), db_commit sess3))))
          else (Inl ValueError, sess))"

section \<open>The tree view\<close>

datatype DepartmentTreeResponse =
  DepartmentTreeResponse (tr_department: department) (tr_employees: "employee list")
    (tr_children: "DepartmentTreeResponse list")

text \<open>
  \<^verbatim>\<open>_build_tree\<close>, the inner function of \<^verbatim>\<open>get_department_tree\<close>. Python's sort is
  stable and compares the key tuples lexicographically, as \<open>sort_key\<close> does on pairs.
\<close>

function build_tree ::
  "session \<Rightarrow> bool \<Rightarrow> string \<Rightarrow> department \<Rightarrow> int \<Rightarrow> DepartmentTreeResponse" where
  "build_tree sess include_employees sort_employees_by dept current_depth =
     DepartmentTreeResponse dept
       (if include_employees
        then (if sort_employees_by = ''full_name''
              then sort_key (\<lambda>e. (e_full_name e, e_id e)) (employees_of sess dept)
              else sort_key (\<lambda>e. (e_created_at e, e_id e)) (employees_of sess dept))
        else [])
       (if current_depth > 0 \<and> children sess dept \<noteq> []
        then map (\<lambda>child. build_tree sess include_employees sort_employees_by child
                             (current_depth - 1))
               (sort_key (\<lambda>c. (d_name c, d_id c)) (children sess dept))
        else [])"
  by pat_completeness auto

termination build_tree
  by (relation "measure (\<lambda>(sess, include_employees, sort_employees_by, dept, current_depth).
                   nat current_depth)") auto

definition get_department_tree ::
  "session \<Rightarrow> int \<Rightarrow> int \<Rightarrow> bool \<Rightarrow> string \<Rightarrow> error + DepartmentTreeResponse" where
  "get_department_tree sess department_id depth include_employees sort_employees_by =
     (case get_department sess department_id of
        None \<Rightarrow> Inl DepartmentNotFoundError
      | Some department \<Rightarrow>
          Inr (build_tree sess include_employees sort_employees_by department depth))"

section \<open>An example store\<close>

text \<open>
  A store used to run the theorems below on concrete input: two roots, Engineering with
  the children Backend and Frontend, each of which has a child named API, and Core under
  Backend's API.
\<close>

definition mk_department :: "int \<Rightarrow> string \<Rightarrow> int option \<Rightarrow> department" where
  "mk_department i n p = \<lparr>d_id = i, d_name = n, d_parent_id = p, d_created_at = 100 + i\<rparr>"

definition mk_employee :: "int \<Rightarrow> int \<Rightarrow> string \<Rightarrow> int \<Rightarrow> employee" where
  "mk_employee i d n t = \<lparr>e_id = i, e_department_id = d, e_full_name = n,
     e_position = ''Dev'', e_hired_at = None, e_created_at = t\<rparr>"

definition org_db :: db where
  "org_db = \<lparr>departments =
       [mk_department 1 ''Engineering'' None, mk_department 2 ''Backend'' (Some 1),
        mk_department 3 ''Frontend'' (Some 1), mk_department 4 ''Sales'' None,
        mk_department 5 ''API'' (Some 2), mk_department 6 ''API'' (Some 3),
        mk_department 7 ''Core'' (Some 5)],
     employees =
       [mk_employee 1 2 ''Bob'' 20, mk_employee 2 2 ''Alice'' 21, mk_employee 3 5 ''Carol'' 22,
        mk_employee 4 4 ''Dan'' 23, mk_employee 5 7 ''Eve'' 24],
     departments_id_seq = 8, employees_id_seq = 6\<rparr>"

section \<open>Facts about the queries\<close>

lemma check_name_unique_under_parent_eq:
  "check_name_unique_under_parent sess name parent_id excl =
     (if \<exists>d \<in> set (departments (working sess)).
           d_name d = name \<and> d_parent_id d = parent_id \<and> (\<forall>x. excl = Some x \<longrightarrow> d_id d \<noteq> x)
      then Inl ConflictError else Inr ())"
proof -
  have "(find (\<lambda>d. d_name d = name \<and> d_parent_id d = parent_id \<and>
                  (case excl of None \<Rightarrow> True | Some x \<Rightarrow> d_id d \<noteq> x))
          (departments (working sess)) = None)
        = (\<not> (\<exists>d \<in> set (departments (working sess)).
           d_name d = name \<and> d_parent_id d = parent_id \<and> (\<forall>x. excl = Some x \<longrightarrow> d_id d \<noteq> x)))"
    by (auto simp: find_None_iff split: option.splits)
  then show ?thesis
    unfolding check_name_unique_under_parent_def Let_def by presburger
qed

lemma get_department_Some:
  "get_department sess i = Some d \<Longrightarrow> d \<in> set (departments (working sess)) \<and> d_id d = i"
  by (auto simp: get_department_def find_Some_iff)

lemma get_department_None:
  "(get_department sess i = None) = (i \<notin> d_id ` set (departments (working sess)))"
  by (auto simp: get_department_def find_None_iff)

section \<open>Creating a department\<close>

text \<open>
  Claim C9. \<^verbatim>\<open>create_department\<close> checks in this order. A parent id that is given and
  names no department: \<^verbatim>\<open>DepartmentNotFoundError\<close>, and the session is as before
  (nothing written). Otherwise, a department of the same name under the same parent
  (two roots of one name included): \<^verbatim>\<open>ConflictError\<close>, nothing written. Otherwise the
  call commits one new row, with the given name and parent, after the existing rows, and
  returns it; the employees are as before.
\<close>

theorem create_department_outcome:
  "(\<forall>p. dc_parent_id data = Some p \<and> get_department sess p = None \<longrightarrow>
      create_department sess data now = (Inl DepartmentNotFoundError, sess)) \<and>
   ((dc_parent_id data = None \<or> get_department sess (the (dc_parent_id data)) \<noteq> None) \<longrightarrow>
      (if \<exists>d \<in> set (departments (working sess)).
            d_name d = dc_name data \<and> d_parent_id d = dc_parent_id data
       then create_department sess data now = (Inl ConflictError, sess)
       else \<exists>department sess'.
              create_department sess data now = (Inr department, sess') \<and>
              d_name department = dc_name data \<and>
              d_parent_id department = dc_parent_id data \<and>
              departments (committed sess') = departments (working sess) @ [department] \<and>
              employees (committed sess') = employees (working sess) \<and>
              get_department sess' (d_id department) \<noteq> None))"
proof (intro conjI allI impI)
  fix p assume "dc_parent_id data = Some p \<and> get_department sess p = None"
  then show "create_department sess data now = (Inl DepartmentNotFoundError, sess)"
    by (simp add: create_department_def)
next
  assume ok: "dc_parent_id data = None \<or> get_department sess (the (dc_parent_id data)) \<noteq> None"
  let ?dup = "\<exists>d \<in> set (departments (working sess)).
            d_name d = dc_name data \<and> d_parent_id d = dc_parent_id data"
  show "if ?dup
       then create_department sess data now = (Inl ConflictError, sess)
       else \<exists>department sess'.
              create_department sess data now = (Inr department, sess') \<and>
              d_name department = dc_name data \<and>
              d_parent_id department = dc_parent_id data \<and>
              departments (committed sess') = departments (working sess) @ [department] \<and>
              employees (committed sess') = employees (working sess) \<and>
              get_department sess' (d_id department) \<noteq> None"
  proof (cases ?dup)
    case True
    then show ?thesis using ok
      by (auto simp: create_department_def check_name_unique_under_parent_eq)
  next
    case False
    then have nodup: "\<not> list_ex (\<lambda>r'. d_name r' = dc_name data \<and> d_parent_id r' = dc_parent_id data)
        (departments (working sess))"
      by (simp add: list_ex_iff)
    show ?thesis using ok False nodup
      by (auto simp: create_department_def check_name_unique_under_parent_eq
          insert_department_def Let_def db_commit_def get_department_None)
  qed
qed

theorem create_department_outcome_witness:
  "create_department (open_session empty_db) \<lparr>dc_name = ''Backend'', dc_parent_id = Some 7\<rparr> 0
     = (Inl DepartmentNotFoundError, open_session empty_db) \<and>
   create_department (open_session org_db) \<lparr>dc_name = ''Sales'', dc_parent_id = None\<rparr> 0
     = (Inl ConflictError, open_session org_db) \<and>
   create_department (open_session org_db) \<lparr>dc_name = ''API'', dc_parent_id = Some 3\<rparr> 0
     = (Inl ConflictError, open_session org_db) \<and>
   (\<exists>department sess'.
      create_department (open_session empty_db) \<lparr>dc_name = ''Engineering'', dc_parent_id = None\<rparr> 0
        = (Inr department, sess') \<and> d_name department = ''Engineering'' \<and>
      departments (committed sess') = [department])"
proof -
  have 1: "create_department (open_session empty_db)
      \<lparr>dc_name = ''Backend'', dc_parent_id = Some 7\<rparr> 0
     = (Inl DepartmentNotFoundError, open_session empty_db)"
    using create_department_outcome [of "\<lparr>dc_name = ''Backend'', dc_parent_id = Some 7\<rparr>"
        "open_session empty_db" 0]
    by (simp add: open_session_def empty_db_def get_department_def)
  have 2: "create_department (open_session org_db) \<lparr>dc_name = ''Sales'', dc_parent_id = None\<rparr> 0
     = (Inl ConflictError, open_session org_db)"
    using create_department_outcome [of "\<lparr>dc_name = ''Sales'', dc_parent_id = None\<rparr>"
        "open_session org_db" 0]
    by (simp add: open_session_def org_db_def mk_department_def)
  have 3: "create_department (open_session org_db) \<lparr>dc_name = ''API'', dc_parent_id = Some 3\<rparr> 0
     = (Inl ConflictError, open_session org_db)"
    using create_department_outcome [of "\<lparr>dc_name = ''API'', dc_parent_id = Some 3\<rparr>"
        "open_session org_db" 0]
    by (simp add: open_session_def org_db_def mk_department_def get_department_def)
  have 4: "\<exists>department sess'.
      create_department (open_session empty_db) \<lparr>dc_name = ''Engineering'', dc_parent_id = None\<rparr> 0
        = (Inr department, sess') \<and> d_name department = ''Engineering'' \<and>
      departments (committed sess') = [department]"
    using create_department_outcome [of "\<lparr>dc_name = ''Engineering'', dc_parent_id = None\<rparr>"
        "open_session empty_db" 0]
    by (simp add: open_session_def empty_db_def get_department_def) blast
  from 1 2 3 4 show ?thesis by blast
qed

section \<open>Failure leaves the store as it was\<close>

lemma committed_reassign_employees [simp]:
  "committed (reassign_employees sess i t) = committed sess"
  by (simp add: reassign_employees_def Let_def)

lemma create_department_error:
  "fst (create_department sess data now) = Inl e \<Longrightarrow>
     committed (snd (create_department sess data now)) = committed sess"
  by (auto simp: create_department_def split: if_splits sum.splits prod.splits)

lemma create_employee_error:
  "fst (create_employee sess i data now) = Inl e \<Longrightarrow>
     committed (snd (create_employee sess i data now)) = committed sess"
  by (auto simp: create_employee_def split: if_splits prod.splits)

lemma update_department_error:
  "update_department sess i data = Some (Inl e, sess') \<Longrightarrow> committed sess' = committed sess"
  by (auto simp: update_department_def Let_def split: option.splits if_splits sum.splits prod.splits)

lemma committed_reassign_children:
  "reassign_children sess i t = Inr sess2 \<Longrightarrow> committed sess2 = committed sess"
  by (auto simp: reassign_children_def Let_def split: if_splits)

lemma delete_department_error:
  "fst (delete_department sess i mode t) = Inl e \<Longrightarrow>
     committed (snd (delete_department sess i mode t)) = committed sess"
  by (auto simp: delete_department_def Let_def dest: committed_reassign_children
      split: option.splits if_splits sum.splits)

lemma org_create_missing_parent: "create_department (open_session org_db) \<lparr>dc_name = ''Ops'', dc_parent_id = Some 9\<rparr> 0 = (Inl DepartmentNotFoundError, open_session org_db)"
  by (simp add: create_department_def open_session_def org_db_def get_department_def mk_department_def)

lemma org_reassign_integrity: "fst (delete_department (open_session org_db) 2 ''reassign'' (Some 3)) = Inl IntegrityError"
  by (simp add: delete_department_def open_session_def org_db_def get_department_def mk_department_def
     reassign_children_def reassign_employees_def set_parent_def row_accepted_def
     uq_department_name_parent_def uq_departments_name_root_def Let_def)

lemma org_update_missing: "update_department (open_session org_db) 9 \<lparr>du_name = None, du_parent_id = Some 1\<rparr>
   = Some (Inl DepartmentNotFoundError, open_session org_db)"
  by (simp add: update_department_def open_session_def org_db_def get_department_def mk_department_def)

lemma org_employee_missing: "fst (create_employee (open_session org_db) 9 \<lparr>ec_full_name = ''Zed'', ec_position = ''Dev'', ec_hired_at = None\<rparr> 0) = Inl DepartmentNotFoundError"
  by (simp add: create_employee_def open_session_def org_db_def get_department_def mk_department_def)

text \<open>
  Claim C4. Whenever \<^verbatim>\<open>create_department\<close>, \<^verbatim>\<open>create_employee\<close>,
  \<^verbatim>\<open>update_department\<close> or \<^verbatim>\<open>delete_department\<close> (in any mode) raises an error, of
  whatever kind, the store found when the request's session is closed is the store the
  session started from: every \<^verbatim>\<open>raise\<close> comes before the one \<^verbatim>\<open>db.commit()\<close> of its
  function, and nothing uncommitted survives the session.
\<close>

theorem failure_atomicity:
  "(fst (create_department sess dc now) = Inl e \<longrightarrow>
      db_close (snd (create_department sess dc now)) = committed sess) \<and>
   (fst (create_employee sess i ec now) = Inl e \<longrightarrow>
      db_close (snd (create_employee sess i ec now)) = committed sess) \<and>
   (\<forall>sess'. update_department sess i du = Some (Inl e, sess') \<longrightarrow>
      db_close sess' = committed sess) \<and>
   (fst (delete_department sess i mode target) = Inl e \<longrightarrow>
      db_close (snd (delete_department sess i mode target)) = committed sess)"
  using create_department_error create_employee_error update_department_error
    delete_department_error
  unfolding db_close_def by blast

theorem failure_atomicity_witness:
  "fst (create_department (open_session org_db) \<lparr>dc_name = ''Ops'', dc_parent_id = Some 9\<rparr> 0)
     = Inl DepartmentNotFoundError \<and>
   db_close (snd (create_department (open_session org_db)
     \<lparr>dc_name = ''Ops'', dc_parent_id = Some 9\<rparr> 0)) = org_db \<and>
   fst (create_employee (open_session org_db) 9
     \<lparr>ec_full_name = ''Zed'', ec_position = ''Dev'', ec_hired_at = None\<rparr> 0)
     = Inl DepartmentNotFoundError \<and>
   db_close (snd (create_employee (open_session org_db) 9
     \<lparr>ec_full_name = ''Zed'', ec_position = ''Dev'', ec_hired_at = None\<rparr> 0)) = org_db \<and>
   update_department (open_session org_db) 9 \<lparr>du_name = None, du_parent_id = Some 1\<rparr>
     = Some (Inl DepartmentNotFoundError, open_session org_db) \<and>
   db_close (open_session org_db) = org_db \<and>
   fst (delete_department (open_session org_db) 2 ''reassign'' (Some 3)) = Inl IntegrityError \<and>
   db_close (snd (delete_department (open_session org_db) 2 ''reassign'' (Some 3))) = org_db"
proof -
  have c: "committed (open_session org_db) = org_db" by (simp add: open_session_def)
  from org_create_missing_parent have a1: "fst (create_department (open_session org_db)
      \<lparr>dc_name = ''Ops'', dc_parent_id = Some 9\<rparr> 0) = Inl DepartmentNotFoundError" by simp
  show ?thesis
    using a1 org_reassign_integrity org_update_missing org_employee_missing
      failure_atomicity [where sess = "open_session org_db"
        and dc = "\<lparr>dc_name = ''Ops'', dc_parent_id = Some 9\<rparr>" and now = 0
        and e = DepartmentNotFoundError and i = 9
        and ec = "\<lparr>ec_full_name = ''Zed'', ec_position = ''Dev'', ec_hired_at = None\<rparr>"
        and du = "\<lparr>du_name = None, du_parent_id = Some 1\<rparr>"]
      failure_atomicity [where sess = "open_session org_db" and e = IntegrityError and i = 2
        and mode = "''reassign''" and target = "Some 3"]
    by (simp add: c)
qed

section \<open>Facts about updating\<close>

text \<open>
  \<open>written\<close> is the session a successful \<^verbatim>\<open>update_department\<close> leaves: the row
  rewritten and the transaction committed.
\<close>

lemma find_set_name_parent:
  "find (\<lambda>d. d_id d = i) (map (set_name_parent i n p) rows) =
     map_option (\<lambda>d. d\<lparr>d_name := n, d_parent_id := p\<rparr>) (find (\<lambda>d. d_id d = i) rows)"
  by (induction rows) (auto simp: set_name_parent_def)

definition written :: "session \<Rightarrow> int \<Rightarrow> string \<Rightarrow> int option \<Rightarrow> session" where
  "written sess i n p = db_commit (sess\<lparr>working := (working sess)\<lparr>departments :=
       map (set_name_parent i n p) (departments (working sess))\<rparr>\<rparr>)"

lemma update_department_cases:
  assumes "update_department sess i data = Some (res, sess')"
    and "get_department sess i = Some department"
  shows "(sess' = sess \<and> (\<exists>e. res = Inl e)) \<or>
         (res = Inr (department\<lparr>d_name := new_name data department,
                                 d_parent_id := new_parent_id data department\<rparr>) \<and>
          sess' = written sess i (new_name data department) (new_parent_id data department))"
proof -
  have i: "d_id department = i" using assms(2) get_department_Some by blast
  show ?thesis
    using assms
    by (auto simp: update_department_def update_row_def Let_def i written_def
        split: option.splits if_splits sum.splits prod.splits)
qed

lemma get_department_written:
  "get_department (written sess i n p) i =
     map_option (\<lambda>d. d\<lparr>d_name := n, d_parent_id := p\<rparr>) (get_department sess i)"
  by (simp add: get_department_def written_def db_commit_def find_set_name_parent)

lemma validate_update_parent:
  "validate_update body = Inr data \<Longrightarrow>
     du_parent_id data = (case body_parent_id body of Given p \<Rightarrow> Some p | _ \<Rightarrow> None)"
  by (auto simp: validate_update_def Let_def split: option.splits if_splits body_field.splits)

lemma validate_update_name:
  "validate_update body = Inr data \<Longrightarrow> du_name data = trim_name (body_name body)"
  by (auto simp: validate_update_def Let_def split: option.splits if_splits)

subsection \<open>Running the update on the example store\<close>

lemma strip_blank: "strip '' '' = []"
  by (simp add: strip_def is_space_def)

lemma strip_ex: "strip '' Platform  '' = ''Platform''"
  by (simp add: strip_def is_space_def)

lemma org_descendants_2: "get_descendant_ids (open_session org_db) 2 = Some {5, 7}"
  by (simp add: get_descendant_ids_def open_session_def org_db_def mk_department_def
      get_descendant_ids_loop.simps child_ids_def insert_commute)

lemmas org_eval = update_department_def new_parent_id_def new_name_def Let_def
      check_name_unique_under_parent_def update_row_def row_accepted_def
      uq_department_name_parent_def uq_departments_name_root_def set_name_parent_def db_commit_def
      get_department_def open_session_def org_db_def mk_department_def
      get_descendant_ids_def get_descendant_ids_loop.simps child_ids_def

lemma org_validate_rename_move:
  "validate_update \<lparr>body_name = Given '' Platform  '', body_parent_id = Given 3\<rparr>
     = Inr \<lparr>du_name = Some ''Platform'', du_parent_id = Some 3\<rparr>"
  by (simp add: validate_update_def trim_name_def strip_ex)

lemma org_get_7: "get_department (open_session org_db) 7 = Some (mk_department 7 ''Core'' (Some 5))"
  by (simp add: get_department_def open_session_def org_db_def mk_department_def)

lemma org_update_7:
  "\<exists>sess'. update_department (open_session org_db) 7 \<lparr>du_name = Some ''Platform'', du_parent_id = Some 3\<rparr>
     = Some (Inr (mk_department 7 ''Platform'' (Some 3)), sess')"
  by (simp add: org_eval)

lemma org_get_2: "get_department (open_session org_db) 2 = Some (mk_department 2 ''Backend'' (Some 1))"
  by (simp add: get_department_def open_session_def org_db_def mk_department_def)

lemma org_patch_2_rename:
  "\<exists>sess'. patch_department (open_session org_db) 2 \<lparr>body_name = Given ''Server'', body_parent_id = Null\<rparr>
     = Some (Inr (mk_department 2 ''Server'' (Some 1)), sess')"
  by (simp add: patch_department_def validate_update_def trim_name_def strip_def is_space_def org_eval)

section \<open>The effective name and parent of an update\<close>

text \<open>
  Claim C6, as the code has it. For a PATCH body that passes validation, the effective
  new parent is the supplied id when the field holds one, and the department's current
  parent when the field is left out \<^emph>\<open>or is null\<close>; the effective new name is the
  supplied name with its surrounding whitespace removed when that is not empty, and the
  department's current name when the field is left out, is null, \<^emph>\<open>or is empty or
  blank\<close>. A successful \<^verbatim>\<open>update_department\<close> stores and returns exactly these two
  values.
\<close>

theorem effective_name_and_parent:
  assumes "validate_update body = Inr data"
  shows "new_parent_id data department =
           (case body_parent_id body of
              Given p \<Rightarrow> Some p | Null \<Rightarrow> d_parent_id department
            | Omitted \<Rightarrow> d_parent_id department) \<and>
         new_name data department =
           (case body_name body of
              Given s \<Rightarrow> (if strip s = [] then d_name department else strip s)
            | Null \<Rightarrow> d_name department | Omitted \<Rightarrow> d_name department) \<and>
         (\<forall>sess i department' sess'.
            get_department sess i = Some department \<and>
            update_department sess i data = Some (Inr department', sess') \<longrightarrow>
            d_name department' = new_name data department \<and>
            d_parent_id department' = new_parent_id data department \<and>
            get_department sess' i = Some department')"
proof (intro conjI allI impI)
  show "new_parent_id data department =
           (case body_parent_id body of
              Given p \<Rightarrow> Some p | Null \<Rightarrow> d_parent_id department
            | Omitted \<Rightarrow> d_parent_id department)"
    using validate_update_parent [OF assms]
    by (simp add: new_parent_id_def split: body_field.splits)
  show "new_name data department =
           (case body_name body of
              Given s \<Rightarrow> (if strip s = [] then d_name department else strip s)
            | Null \<Rightarrow> d_name department | Omitted \<Rightarrow> d_name department)"
    using validate_update_name [OF assms]
    by (simp add: new_name_def trim_name_def split: body_field.splits)
next
  fix sess i department' sess'
  assume a: "get_department sess i = Some department \<and>
            update_department sess i data = Some (Inr department', sess')"
  from update_department_cases [of sess i data "Inr department'" sess' department] a
  have r: "department' = department\<lparr>d_name := new_name data department,
                                 d_parent_id := new_parent_id data department\<rparr>"
    and s: "sess' = written sess i (new_name data department) (new_parent_id data department)"
    by auto
  show "d_name department' = new_name data department" using r by simp
  show "d_parent_id department' = new_parent_id data department" using r by simp
  show "get_department sess' i = Some department'"
    using a r s by (simp add: get_department_written)
qed

theorem effective_name_and_parent_witness:
  "validate_update \<lparr>body_name = Given '' Platform  '', body_parent_id = Given 3\<rparr>
     = Inr \<lparr>du_name = Some ''Platform'', du_parent_id = Some 3\<rparr> \<and>
   new_parent_id \<lparr>du_name = Some ''Platform'', du_parent_id = Some 3\<rparr>
     (mk_department 7 ''Core'' (Some 5)) = Some 3 \<and>
   new_name \<lparr>du_name = Some ''Platform'', du_parent_id = Some 3\<rparr>
     (mk_department 7 ''Core'' (Some 5)) = ''Platform'' \<and>
   (\<exists>sess'. update_department (open_session org_db) 7
       \<lparr>du_name = Some ''Platform'', du_parent_id = Some 3\<rparr>
       = Some (Inr (mk_department 7 ''Platform'' (Some 3)), sess') \<and>
     get_department sess' 7 = Some (mk_department 7 ''Platform'' (Some 3)))"
proof -
  note t = effective_name_and_parent [OF org_validate_rename_move,
      of "mk_department 7 ''Core'' (Some 5)"]
  from org_update_7 obtain sess' where
    u: "update_department (open_session org_db) 7
       \<lparr>du_name = Some ''Platform'', du_parent_id = Some 3\<rparr>
       = Some (Inr (mk_department 7 ''Platform'' (Some 3)), sess')" by blast
  from t have "get_department (open_session org_db) 7 = Some (mk_department 7 ''Core'' (Some 5)) \<and>
       update_department (open_session org_db) 7
         \<lparr>du_name = Some ''Platform'', du_parent_id = Some 3\<rparr>
         = Some (Inr (mk_department 7 ''Platform'' (Some 3)), sess') \<longrightarrow>
       get_department sess' 7 = Some (mk_department 7 ''Platform'' (Some 3))"
    by blast
  with org_get_7 u have g: "get_department sess' 7 = Some (mk_department 7 ''Platform'' (Some 3))"
    by blast
  from t have "new_parent_id \<lparr>du_name = Some ''Platform'', du_parent_id = Some 3\<rparr>
     (mk_department 7 ''Core'' (Some 5)) = Some 3"
    and "new_name \<lparr>du_name = Some ''Platform'', du_parent_id = Some 3\<rparr>
     (mk_department 7 ''Core'' (Some 5)) = ''Platform''"
    by (simp_all add: strip_ex)
  with org_validate_rename_move u g show ?thesis by blast
qed

text \<open>
  The claim as worded says that an explicit null and an empty string are not treated as
  omission. On the example store, a PATCH of department 2 (Backend, under 1) with the name
  \<^verbatim>\<open>""\<close> and the parent \<^verbatim>\<open>null\<close> succeeds and leaves name and parent as they were.
\<close>

theorem explicit_null_and_empty_name_keep_current:
  "patch_department (open_session org_db) 2 \<lparr>body_name = Given [], body_parent_id = Null\<rparr>
     = Some (Inr \<lparr>d_id = 2, d_name = ''Backend'', d_parent_id = Some 1, d_created_at = 102\<rparr>,
             open_session org_db)"
  by (simp add: patch_department_def validate_update_def trim_name_def strip_def org_eval)

section \<open>An update never makes a department a root\<close>

text \<open>
  Claim C10. If the department exists and has a parent, then after any PATCH that
  returns, with an error or not, the department still exists and still has a parent; and
  when the body's \<^verbatim>\<open>parent_id\<close> is left out or is null, the parent is the one it had.
\<close>

theorem update_never_makes_root:
  assumes "get_department sess department_id = Some department"
    and "d_parent_id department \<noteq> None"
    and "patch_department sess department_id body = Some (res, sess')"
  shows "\<exists>department'. get_department sess' department_id = Some department' \<and>
           d_parent_id department' \<noteq> None \<and>
           ((body_parent_id body = Omitted \<or> body_parent_id body = Null) \<longrightarrow>
              d_parent_id department' = d_parent_id department)"
proof (cases "validate_update body")
  case (Inl e)
  with assms show ?thesis by (simp add: patch_department_def)
next
  case (Inr data)
  with assms(3) have u: "update_department sess department_id data = Some (res, sess')"
    by (simp add: patch_department_def)
  have p: "(body_parent_id body = Omitted \<or> body_parent_id body = Null) \<Longrightarrow>
      new_parent_id data department = d_parent_id department"
    using validate_update_parent [OF Inr] by (auto simp: new_parent_id_def)
  have nn: "new_parent_id data department \<noteq> None"
    using assms(2) by (simp add: new_parent_id_def)
  from update_department_cases [OF u assms(1)] show ?thesis
  proof
    assume "sess' = sess \<and> (\<exists>e. res = Inl e)"
    with assms show ?thesis by simp
  next
    assume "res = Inr (department\<lparr>d_name := new_name data department,
                                 d_parent_id := new_parent_id data department\<rparr>) \<and>
          sess' = written sess department_id (new_name data department) (new_parent_id data department)"
    then show ?thesis using assms(1) nn p by (auto simp: get_department_written)
  qed
qed

theorem update_never_makes_root_witness:
  "\<exists>sess' department'.
     patch_department (open_session org_db) 2 \<lparr>body_name = Given ''Server'', body_parent_id = Null\<rparr>
       = Some (Inr (mk_department 2 ''Server'' (Some 1)), sess') \<and>
     get_department sess' 2 = Some department' \<and> d_parent_id department' = Some 1"
proof -
  from org_patch_2_rename obtain sess' where
    p: "patch_department (open_session org_db) 2 \<lparr>body_name = Given ''Server'', body_parent_id = Null\<rparr>
     = Some (Inr (mk_department 2 ''Server'' (Some 1)), sess')" by blast
  have "d_parent_id (mk_department 2 ''Backend'' (Some 1)) \<noteq> None"
    by (simp add: mk_department_def)
  from update_never_makes_root [OF org_get_2 this p]
  show ?thesis using p by (auto simp: mk_department_def)
qed

section \<open>The subtree of a department\<close>

text \<open>
  The children relation of the table, as a set of (parent id, child id) pairs, and the
  ids reached from a department by following it any number of times, the department's
  own id included: the department with all its descendants.
\<close>

definition child_rel :: "department list \<Rightarrow> (int \<times> int) set" where
  "child_rel rows = {(p, c). \<exists>d \<in> set rows. d_id d = c \<and> d_parent_id d = Some p}"

definition subtree_ids :: "department list \<Rightarrow> int \<Rightarrow> int set" where
  "subtree_ids rows department_id = (child_rel rows)\<^sup>* `` {department_id}"

text \<open>
  The ids \<^verbatim>\<open>db.delete\<close> collects are exactly this subtree, and, the subtree being
  closed under the children relation, \<^verbatim>\<open>SET NULL\<close> finds no row to change.
\<close>

lemma set_child_ids: "set (child_ids rows x) = child_rel rows `` {x}"
  by (auto simp: child_ids_def child_rel_def)

lemma cascade_ids_within:
  "set (cascade_ids rows todo visited) \<subseteq> set visited \<union> (child_rel rows)\<^sup>* `` set todo"
proof (induction rows todo visited rule: cascade_ids.induct)
  case (1 rows visited)
  show ?case by simp
next
  case (2 rows x todo visited)
  show ?case
  proof (cases "x \<in> set visited")
    case True
    with 2 show ?thesis by auto
  next
    case False
    have "(child_rel rows)\<^sup>* `` set (child_ids rows x) \<subseteq> (child_rel rows)\<^sup>* `` {x}"
      unfolding set_child_ids by (auto intro: converse_rtrancl_into_rtrancl)
    with 2(2) [OF False] False show ?thesis by auto
  qed
qed

lemma cascade_ids_covers:
  assumes "\<forall>v \<in> set visited. child_rel rows `` {v} \<subseteq> set visited \<union> set todo"
  shows "set visited \<union> set todo \<subseteq> set (cascade_ids rows todo visited) \<and>
         child_rel rows `` set (cascade_ids rows todo visited) \<subseteq> set (cascade_ids rows todo visited)"
  using assms
proof (induction rows todo visited rule: cascade_ids.induct)
  case (1 rows visited)
  then show ?case by auto
next
  case (2 rows x todo visited)
  show ?case
  proof (cases "x \<in> set visited")
    case True
    have "\<forall>v \<in> set visited. child_rel rows `` {v} \<subseteq> set visited \<union> set todo"
      using 2(3) True by auto
    from 2(1) [OF True this] True show ?thesis by auto
  next
    case False
    have "\<forall>v \<in> set (x # visited).
            child_rel rows `` {v} \<subseteq> set (x # visited) \<union> set (child_ids rows x @ todo)"
      using 2(3) by (auto simp: set_child_ids)
    from 2(2) [OF False this] False show ?thesis by auto
  qed
qed

lemma cascade_ids_subtree:
  "set (cascade_ids rows [department_id] []) = subtree_ids rows department_id"
proof
  show "set (cascade_ids rows [department_id] []) \<subseteq> subtree_ids rows department_id"
    using cascade_ids_within [of rows "[department_id]" "[]"] by (simp add: subtree_ids_def)
next
  let ?S = "set (cascade_ids rows [department_id] [])"
  have c: "{department_id} \<subseteq> ?S \<and> child_rel rows `` ?S \<subseteq> ?S"
    using cascade_ids_covers [of "[]" rows "[department_id]"] by simp
  then have "(child_rel rows)\<^sup>* `` ?S = ?S" by (simp add: Image_closed_trancl)
  moreover have "(child_rel rows)\<^sup>* `` {department_id} \<subseteq> (child_rel rows)\<^sup>* `` ?S"
    using c by blast
  ultimately show "subtree_ids rows department_id \<subseteq> ?S" by (simp add: subtree_ids_def)
qed

lemma cascade_ids_closure:
  "set (cascade_ids rows todo []) = (child_rel rows)\<^sup>* `` set todo"
proof
  show "set (cascade_ids rows todo []) \<subseteq> (child_rel rows)\<^sup>* `` set todo"
    using cascade_ids_within [of rows todo "[]"] by simp
next
  let ?S = "set (cascade_ids rows todo [])"
  have c: "set todo \<subseteq> ?S \<and> child_rel rows `` ?S \<subseteq> ?S"
    using cascade_ids_covers [of "[]" rows todo] by simp
  then have "(child_rel rows)\<^sup>* `` ?S = ?S" by (simp add: Image_closed_trancl)
  moreover have "(child_rel rows)\<^sup>* `` set todo \<subseteq> (child_rel rows)\<^sup>* `` ?S"
    using c by blast
  ultimately show "(child_rel rows)\<^sup>* `` set todo \<subseteq> ?S" by simp
qed

lemma cascade_cycle_iff:
  "cascade_cycle rows gone = (\<exists>x \<in> set gone. (x, x) \<in> (child_rel rows)\<^sup>+)"
proof -
  have "(x \<in> (child_rel rows)\<^sup>* `` (child_rel rows `` {x})) = ((x, x) \<in> (child_rel rows)\<^sup>+)"
    for x
    by (auto intro: rtrancl_into_trancl2 dest: tranclD)
  then show ?thesis
    by (simp add: cascade_cycle_def list_ex_iff cascade_ids_closure set_child_ids)
qed

lemma subtree_ids_closed:
  "p \<in> subtree_ids rows i \<Longrightarrow> d \<in> set rows \<Longrightarrow> d_parent_id d = Some p \<Longrightarrow>
     d_id d \<in> subtree_ids rows i"
  unfolding subtree_ids_def child_rel_def by (auto intro: rtrancl_into_rtrancl)

lemma delete_rows_eq:
  "delete_rows sess department =
     sess\<lparr>working := (working sess)\<lparr>
       departments := filter (\<lambda>d. d_id d \<notin> subtree_ids (departments (working sess)) (d_id department))
                        (departments (working sess)),
       employees := filter (\<lambda>e. e_department_id e \<notin> subtree_ids (departments (working sess)) (d_id department))
                        (employees (working sess))\<rparr>\<rparr>"
proof -
  let ?rows = "departments (working sess)"
  let ?S = "subtree_ids ?rows (d_id department)"
  let ?kept = "filter (\<lambda>d. d_id d \<notin> ?S) ?rows"
  have "map (\<lambda>d. if d_parent_id d \<noteq> None \<and> the (d_parent_id d) \<in> ?S
                  then d\<lparr>d_parent_id := None\<rparr> else d) ?kept = ?kept"
  proof (rule map_idI)
    fix d assume "d \<in> set ?kept"
    then have d: "d \<in> set ?rows" "d_id d \<notin> ?S" by auto
    then have "\<not> (d_parent_id d \<noteq> None \<and> the (d_parent_id d) \<in> ?S)"
      using subtree_ids_closed [of "the (d_parent_id d)" ?rows "d_id department" d] by auto
    then show "(if d_parent_id d \<noteq> None \<and> the (d_parent_id d) \<in> ?S
                  then d\<lparr>d_parent_id := None\<rparr> else d) = d" by (simp only: if_False)
  qed
  then show ?thesis
    unfolding delete_rows_def Let_def cascade_ids_subtree by (simp only:)
qed

lemma db_delete_eq:
  "db_delete sess department =
     (if \<exists>x \<in> subtree_ids (departments (working sess)) (d_id department).
           (x, x) \<in> (child_rel (departments (working sess)))\<^sup>+
      then Inl CircularDependencyError
      else Inr (delete_rows sess department))"
  unfolding db_delete_def Let_def cascade_cycle_iff cascade_ids_subtree by (rule refl)

lemma db_delete_Inr:
  "db_delete sess department = Inr sess' \<Longrightarrow> sess' = delete_rows sess department"
  by (simp add: db_delete_eq split: if_splits)

subsection \<open>Running the delete on the example store\<close>

lemmas org_delete_eval = delete_department_def reassign_children_def reassign_employees_def
  db_delete_def cascade_cycle_def child_ids_def
  set_parent_def row_accepted_def uq_department_name_parent_def uq_departments_name_root_def
  Let_def get_department_def open_session_def org_db_def mk_department_def mk_employee_def

lemma org_reassign_2_to_4:
  "fst (delete_department (open_session org_db) 2 ''reassign'' (Some 4)) = Inr ()"
  by (simp add: org_delete_eval)

lemma org_working:
  "departments (working (open_session org_db)) = departments org_db"
  "employees (working (open_session org_db)) = employees org_db"
  by (simp_all add: open_session_def)

section \<open>Cascade delete\<close>

text \<open>
  Where no department of the subtree is its own ancestor, \<^verbatim>\<open>delete_department\<close> in
  mode cascade succeeds for an existing department and commits a store whose departments
  are the former ones outside the department's subtree (the department and the
  transitive closure of its descendants), unchanged and in their order, and whose
  employees are the former ones whose department lies outside the subtree, unchanged. So
  exactly the subtree and its employees are removed, the department's id resolves no
  more, and no remaining employee refers to a removed department.
\<close>

lemma cascade_delete_without_cycle:
  assumes "get_department sess department_id = Some department"
    and "\<forall>x \<in> subtree_ids (departments (working sess)) department_id.
           (x, x) \<notin> (child_rel (departments (working sess)))\<^sup>+"
  shows "\<exists>sess'.
      delete_department sess department_id ''cascade'' target = (Inr (), sess') \<and>
      departments (committed sess') =
        filter (\<lambda>d. d_id d \<notin> subtree_ids (departments (working sess)) department_id)
          (departments (working sess)) \<and>
      employees (committed sess') =
        filter (\<lambda>e. e_department_id e \<notin> subtree_ids (departments (working sess)) department_id)
          (employees (working sess)) \<and>
      department_id \<in> subtree_ids (departments (working sess)) department_id \<and>
      get_department sess' department_id = None \<and>
      (\<forall>e \<in> set (employees (committed sess')).
         e_department_id e \<notin> subtree_ids (departments (working sess)) department_id)"
proof -
  have i: "d_id department = department_id" using assms(1) get_department_Some by blast
  have self: "department_id \<in> subtree_ids (departments (working sess)) department_id"
    by (simp add: subtree_ids_def)
  have d: "db_delete sess department = Inr (delete_rows sess department)"
    using assms(2) by (simp add: db_delete_eq i)
  have "delete_department sess department_id ''cascade'' target
          = (Inr (), db_commit (delete_rows sess department))"
    using assms(1) by (simp add: delete_department_def d)
  moreover have "get_department (db_commit (delete_rows sess department)) department_id = None"
    using self by (auto simp: get_department_None delete_rows_eq db_commit_def i)
  ultimately show ?thesis
    using self by (simp add: delete_rows_eq db_commit_def i)
qed

lemma org_subtree_2: "subtree_ids (departments org_db) 2 = {2, 5, 7}"
  unfolding cascade_ids_subtree [symmetric]
  by (simp add: org_db_def mk_department_def child_ids_def insert_commute)

lemma org_no_cycle_below_2:
  "\<forall>x \<in> subtree_ids (departments org_db) 2. (x, x) \<notin> (child_rel (departments org_db))\<^sup>+"
proof -
  have "\<not> cascade_cycle (departments org_db) [2, 5, 7]"
    by (simp add: cascade_cycle_def org_db_def mk_department_def child_ids_def)
  then show ?thesis
    by (simp add: cascade_cycle_iff org_subtree_2)
qed

lemma org_cascade_delete_2:
  "\<exists>sess'. delete_department (open_session org_db) 2 ''cascade'' None = (Inr (), sess') \<and>
     map d_id (departments (committed sess')) = [1, 3, 4, 6] \<and>
     map e_id (employees (committed sess')) = [4] \<and>
     get_department sess' 2 = None"
proof -
  from cascade_delete_without_cycle [OF org_get_2, of None, unfolded org_working org_subtree_2,
      OF org_no_cycle_below_2 [unfolded org_subtree_2]]
  obtain sess' where
    "delete_department (open_session org_db) 2 ''cascade'' None = (Inr (), sess')"
    "departments (committed sess') = filter (\<lambda>d. d_id d \<notin> {2, 5, 7}) (departments org_db)"
    "employees (committed sess') = filter (\<lambda>e. e_department_id e \<notin> {2, 5, 7}) (employees org_db)"
    "get_department sess' 2 = None"
    by blast
  then show ?thesis
    by (simp add: org_db_def mk_department_def mk_employee_def)
qed

section \<open>Reassign delete\<close>

text \<open>
  What the two bulk statements and the delete leave when the reassign mode succeeds:
  with no child left under the department, \<^verbatim>\<open>db.delete\<close> removes that one row.
\<close>

lemma child_ids_set_parent:
  "target_id \<noteq> department_id \<Longrightarrow>
     child_ids (map (set_parent department_id target_id) rows) department_id = []"
  by (induction rows) (auto simp: child_ids_def set_parent_def)

lemma cascade_ids_childless:
  "child_ids rows department_id = [] \<Longrightarrow> cascade_ids rows [department_id] [] = [department_id]"
  by simp

definition move_employee :: "int \<Rightarrow> int \<Rightarrow> employee \<Rightarrow> employee" where
  "move_employee department_id target_id e =
     (if e_department_id e = department_id then e\<lparr>e_department_id := target_id\<rparr> else e)"

lemma reassign_employees_eq:
  "reassign_employees sess department_id target_id =
     sess\<lparr>working := (working sess)\<lparr>employees :=
        map (move_employee department_id target_id) (employees (working sess))\<rparr>\<rparr>"
  by (simp add: reassign_employees_def Let_def move_employee_def [abs_def])

lemma reassign_children_Inr:
  "reassign_children sess department_id target_id = Inr sess2 \<Longrightarrow>
     sess2 = sess\<lparr>working := (working sess)\<lparr>departments :=
        map (set_parent department_id target_id) (departments (working sess))\<rparr>\<rparr>"
  by (auto simp: reassign_children_def Let_def split: if_splits)

lemma delete_reassign_Inr:
  assumes "delete_department sess department_id ''reassign'' (Some target_id) = (Inr (), sess')"
  shows "\<exists>department sess2.
           get_department sess department_id = Some department \<and>
           get_department sess target_id \<noteq> None \<and> target_id \<noteq> department_id \<and>
           reassign_children (reassign_employees sess department_id target_id)
             department_id target_id = Inr sess2 \<and>
           sess' = db_commit (delete_rows sess2 department)"
  using assms
  by (auto simp: delete_department_def Let_def dest: db_delete_Inr
      split: option.splits if_splits sum.splits)

lemma filter_move_employee:
  "target_id \<noteq> department_id \<Longrightarrow>
     filter (\<lambda>e. e_department_id e \<noteq> department_id) (map (move_employee department_id target_id) es)
       = map (move_employee department_id target_id) es"
  by (induction es) (auto simp: move_employee_def)

lemma reassign_delete_state:
  assumes "delete_department sess department_id ''reassign'' (Some target_id) = (Inr (), sess')"
  shows "departments (committed sess') =
           filter (\<lambda>d. d_id d \<noteq> department_id)
             (map (set_parent department_id target_id) (departments (working sess))) \<and>
         employees (committed sess') =
           map (move_employee department_id target_id) (employees (working sess)) \<and>
         working sess' = committed sess' \<and>
         get_department sess target_id \<noteq> None \<and> target_id \<noteq> department_id"
proof -
  from delete_reassign_Inr [OF assms] obtain department sess2 where
    g: "get_department sess department_id = Some department"
    and t: "get_department sess target_id \<noteq> None" "target_id \<noteq> department_id"
    and r: "reassign_children (reassign_employees sess department_id target_id)
             department_id target_id = Inr sess2"
    and s: "sess' = db_commit (delete_rows sess2 department)" by blast
  have i: "d_id department = department_id" using g get_department_Some by blast
  let ?rows = "map (set_parent department_id target_id) (departments (working sess))"
  have s2: "sess2 = sess\<lparr>working := (working sess)\<lparr>
       employees := map (move_employee department_id target_id) (employees (working sess)),
       departments := ?rows\<rparr>\<rparr>"
    using reassign_children_Inr [OF r] by (simp add: reassign_employees_eq)
  have sub: "subtree_ids ?rows department_id = {department_id}"
    using cascade_ids_subtree [of ?rows department_id]
      cascade_ids_childless [OF child_ids_set_parent [OF t(2)], of "departments (working sess)"]
    by simp
  show ?thesis
    using t by (simp add: s s2 delete_rows_eq i sub db_commit_def filter_move_employee)
qed

text \<open>
  Claim C2. After a successful reassign-delete of department \<open>D\<close> with target \<open>T\<close>
  (success implies that \<open>T\<close> exists and differs from \<open>D\<close>): the id \<open>D\<close> resolves no
  more; every employee that was in \<open>D\<close> is stored with department \<open>T\<close> and is otherwise
  the same; every direct child of \<open>D\<close> (other than \<open>D\<close> itself, should a row be its own
  parent) is stored with parent \<open>T\<close> and is otherwise the same; and every department
  that is neither \<open>D\<close> nor a direct child of \<open>D\<close>, so in particular every deeper
  descendant, is stored unchanged together with each of the employees it had. The last
  two conjuncts give the whole of the new tables.
\<close>

theorem reassign_delete_effect:
  assumes "delete_department sess department_id ''reassign'' (Some target_id) = (Inr (), sess')"
  shows "get_department sess' department_id = None \<and>
         (\<forall>e \<in> set (employees (working sess)). e_department_id e = department_id \<longrightarrow>
            e\<lparr>e_department_id := target_id\<rparr> \<in> set (employees (committed sess'))) \<and>
         (\<forall>c \<in> set (departments (working sess)).
            d_parent_id c = Some department_id \<and> d_id c \<noteq> department_id \<longrightarrow>
            c\<lparr>d_parent_id := Some target_id\<rparr> \<in> set (departments (committed sess'))) \<and>
         (\<forall>g \<in> set (departments (working sess)).
            d_id g \<noteq> department_id \<and> d_parent_id g \<noteq> Some department_id \<longrightarrow>
            g \<in> set (departments (committed sess')) \<and>
            (\<forall>e \<in> set (employees (working sess)). e_department_id e = d_id g \<longrightarrow>
               e \<in> set (employees (committed sess')))) \<and>
         departments (committed sess') =
           filter (\<lambda>d. d_id d \<noteq> department_id)
             (map (set_parent department_id target_id) (departments (working sess))) \<and>
         employees (committed sess') =
           map (move_employee department_id target_id) (employees (working sess))"
proof -
  note st = reassign_delete_state [OF assms]
  have "get_department sess' department_id = None"
    using st by (auto simp: get_department_None)
  moreover have "\<forall>e \<in> set (employees (working sess)). e_department_id e = department_id \<longrightarrow>
            e\<lparr>e_department_id := target_id\<rparr> \<in> set (employees (committed sess'))"
    using st by (force simp: move_employee_def)
  moreover have "\<forall>c \<in> set (departments (working sess)).
            d_parent_id c = Some department_id \<and> d_id c \<noteq> department_id \<longrightarrow>
            c\<lparr>d_parent_id := Some target_id\<rparr> \<in> set (departments (committed sess'))"
    using st by (force simp: set_parent_def)
  moreover have "\<forall>g \<in> set (departments (working sess)).
            d_id g \<noteq> department_id \<and> d_parent_id g \<noteq> Some department_id \<longrightarrow>
            g \<in> set (departments (committed sess')) \<and>
            (\<forall>e \<in> set (employees (working sess)). e_department_id e = d_id g \<longrightarrow>
               e \<in> set (employees (committed sess')))"
    using st by (force simp: set_parent_def move_employee_def)
  ultimately show ?thesis using st by simp
qed

theorem reassign_delete_effect_witness:
  "\<exists>sess'. delete_department (open_session org_db) 2 ''reassign'' (Some 4) = (Inr (), sess') \<and>
     get_department sess' 2 = None \<and>
     mk_employee 1 4 ''Bob'' 20 \<in> set (employees (committed sess')) \<and>
     mk_employee 2 4 ''Alice'' 21 \<in> set (employees (committed sess')) \<and>
     mk_department 5 ''API'' (Some 4) \<in> set (departments (committed sess')) \<and>
     mk_department 7 ''Core'' (Some 5) \<in> set (departments (committed sess')) \<and>
     mk_employee 5 7 ''Eve'' 24 \<in> set (employees (committed sess'))"
proof -
  obtain r sess' where d: "delete_department (open_session org_db) 2 ''reassign'' (Some 4) = (r, sess')"
    by (cases "delete_department (open_session org_db) 2 ''reassign'' (Some 4)") blast
  with org_reassign_2_to_4 have d': "delete_department (open_session org_db) 2 ''reassign'' (Some 4)
      = (Inr (), sess')" by simp
  note t = reassign_delete_effect [OF d', unfolded org_working]
  have bob: "mk_employee 1 2 ''Bob'' 20 \<in> set (employees org_db)"
    and alice: "mk_employee 2 2 ''Alice'' 21 \<in> set (employees org_db)"
    and eve: "mk_employee 5 7 ''Eve'' 24 \<in> set (employees org_db)"
    and api: "mk_department 5 ''API'' (Some 2) \<in> set (departments org_db)"
    and core: "mk_department 7 ''Core'' (Some 5) \<in> set (departments org_db)"
    by (simp_all add: org_db_def)
  from t have 1: "get_department sess' 2 = None" by blast
  from t have te: "\<forall>e \<in> set (employees org_db). e_department_id e = 2 \<longrightarrow>
            e\<lparr>e_department_id := 4\<rparr> \<in> set (employees (committed sess'))" by blast
  from t have tc: "\<forall>c \<in> set (departments org_db).
            d_parent_id c = Some 2 \<and> d_id c \<noteq> 2 \<longrightarrow>
            c\<lparr>d_parent_id := Some 4\<rparr> \<in> set (departments (committed sess'))" by blast
  from bspec [OF te bob] have 2: "mk_employee 1 4 ''Bob'' 20 \<in> set (employees (committed sess'))"
    by (simp add: mk_employee_def)
  from bspec [OF te alice] have 3: "mk_employee 2 4 ''Alice'' 21 \<in> set (employees (committed sess'))"
    by (simp add: mk_employee_def)
  from bspec [OF tc api] have 4: "mk_department 5 ''API'' (Some 4) \<in> set (departments (committed sess'))"
    by (simp add: mk_department_def)
  from t have g: "\<forall>g \<in> set (departments org_db).
            d_id g \<noteq> 2 \<and> d_parent_id g \<noteq> Some 2 \<longrightarrow>
            g \<in> set (departments (committed sess')) \<and>
            (\<forall>e \<in> set (employees org_db). e_department_id e = d_id g \<longrightarrow>
               e \<in> set (employees (committed sess')))" by blast
  from bspec [OF g core] have 5: "mk_department 7 ''Core'' (Some 5) \<in> set (departments (committed sess'))"
    and e: "\<forall>e \<in> set (employees org_db). e_department_id e = d_id (mk_department 7 ''Core'' (Some 5)) \<longrightarrow>
               e \<in> set (employees (committed sess'))"
    by (simp_all add: mk_department_def)
  from bspec [OF e eve] have 6: "mk_employee 5 7 ''Eve'' 24 \<in> set (employees (committed sess'))"
    by (simp add: mk_department_def mk_employee_def)
  from d' 1 2 3 4 5 6 show ?thesis by blast
qed

section \<open>The tree view is ordered\<close>

text \<open>
  A tree view is ordered when, at every node, the children stand in ascending order of
  (name, id) and the employees in ascending order of (\<^verbatim>\<open>full_name\<close>, id) when that is
  the requested key, of (\<^verbatim>\<open>created_at\<close>, id) otherwise. Pairs are compared
  lexicographically, so the id decides between equal first components.
\<close>

fun ordered_tree :: "string \<Rightarrow> DepartmentTreeResponse \<Rightarrow> bool" where
  "ordered_tree sort_employees_by (DepartmentTreeResponse d es cs) =
     (sorted (map (\<lambda>c. (d_name (tr_department c), d_id (tr_department c))) cs) \<and>
      (if sort_employees_by = ''full_name''
       then sorted (map (\<lambda>e. (e_full_name e, e_id e)) es)
       else sorted (map (\<lambda>e. (e_created_at e, e_id e)) es)) \<and>
      (\<forall>c \<in> set cs. ordered_tree sort_employees_by c))"

declare build_tree.simps [simp del]

lemma tr_department_build_tree [simp]:
  "tr_department (build_tree sess ie sb dept n) = dept"
  by (subst build_tree.simps) simp

lemma tr_employees_build_tree:
  "tr_employees (build_tree sess ie sb dept n) =
     (if ie then (if sb = ''full_name''
                  then sort_key (\<lambda>e. (e_full_name e, e_id e)) (employees_of sess dept)
                  else sort_key (\<lambda>e. (e_created_at e, e_id e)) (employees_of sess dept))
      else [])"
  by (subst build_tree.simps) simp

lemma tr_children_build_tree:
  "tr_children (build_tree sess ie sb dept n) =
     (if n > 0 then map (\<lambda>child. build_tree sess ie sb child (n - 1))
                      (sort_key (\<lambda>c. (d_name c, d_id c)) (children sess dept))
      else [])"
  by (subst build_tree.simps) auto

lemma ordered_tree_sel:
  "ordered_tree sb t =
     (sorted (map (\<lambda>c. (d_name (tr_department c), d_id (tr_department c))) (tr_children t)) \<and>
      (if sb = ''full_name''
       then sorted (map (\<lambda>e. (e_full_name e, e_id e)) (tr_employees t))
       else sorted (map (\<lambda>e. (e_created_at e, e_id e)) (tr_employees t))) \<and>
      (\<forall>c \<in> set (tr_children t). ordered_tree sb c))"
  by (cases t) simp

lemma ordered_tree_build_tree: "ordered_tree sb (build_tree sess ie sb dept n)"
proof (induction sess ie sb dept n rule: build_tree.induct)
  case (1 sess ie sb dept n)
  let ?node = "build_tree sess ie sb dept n"
  have c: "sorted (map (\<lambda>c. (d_name (tr_department c), d_id (tr_department c))) (tr_children ?node))"
    by (simp add: tr_children_build_tree comp_def)
  have e: "if sb = ''full_name''
       then sorted (map (\<lambda>e. (e_full_name e, e_id e)) (tr_employees ?node))
       else sorted (map (\<lambda>e. (e_created_at e, e_id e)) (tr_employees ?node))"
    by (simp add: tr_employees_build_tree)
  have r: "\<forall>c \<in> set (tr_children ?node). ordered_tree sb c"
  proof
    fix c assume "c \<in> set (tr_children ?node)"
    then obtain child where n: "n > 0"
      and m: "child \<in> set (sort_key (\<lambda>c. (d_name c, d_id c)) (children sess dept))"
      and c: "c = build_tree sess ie sb child (n - 1)"
      by (auto simp: tr_children_build_tree split: if_splits)
    from m have "children sess dept \<noteq> []" by auto
    with 1 [OF _ m] n show "ordered_tree sb c" unfolding c by simp
  qed
  show ?case
    using c e r by (subst ordered_tree_sel) (simp only: simp_thms)
qed

lemma org_children_2: "children (open_session org_db) (mk_department 2 ''Backend'' (Some 1))
   = [mk_department 5 ''API'' (Some 2)]"
  by (simp add: children_def open_session_def org_db_def mk_department_def)

lemma org_employees_2: "employees_of (open_session org_db) (mk_department 2 ''Backend'' (Some 1))
   = [mk_employee 1 2 ''Bob'' 20, mk_employee 2 2 ''Alice'' 21]"
  by (simp add: employees_of_def open_session_def org_db_def mk_department_def mk_employee_def)

lemma org_employees_5: "employees_of (open_session org_db) (mk_department 5 ''API'' (Some 2))
   = [mk_employee 3 5 ''Carol'' 22]"
  by (simp add: employees_of_def open_session_def org_db_def mk_department_def mk_employee_def)

lemma org_tree_2:
  "build_tree (open_session org_db) True ''full_name'' (mk_department 2 ''Backend'' (Some 1)) 1
     = DepartmentTreeResponse (mk_department 2 ''Backend'' (Some 1))
         [mk_employee 2 2 ''Alice'' 21, mk_employee 1 2 ''Bob'' 20]
         [DepartmentTreeResponse (mk_department 5 ''API'' (Some 2))
            [mk_employee 3 5 ''Carol'' 22] []]"
  by (simp add: build_tree.simps [of _ _ _ _ 1] build_tree.simps [of _ _ _ _ 0]
      org_children_2 org_employees_2 org_employees_5 mk_employee_def)

text \<open>
  Claim C8. For an existing department \<^verbatim>\<open>get_department_tree\<close> returns the tree built
  by \<^verbatim>\<open>_build_tree\<close>, and that tree is ordered at every level. Every node built for a
  department with depth \<open>n\<close> carries that department; it has no children when
  \<open>n \<le> 0\<close>; when \<open>n > 0\<close> its children are the trees built with depth \<open>n - 1\<close> for
  the department's direct children, taken in (name, id) order, each child once; its
  employees are the department's direct employees, each once, when employees are
  requested, and none otherwise.
\<close>

theorem get_department_tree_ordered:
  assumes "get_department sess department_id = Some department"
  shows "\<exists>t. get_department_tree sess department_id depth include_employees sort_employees_by = Inr t \<and>
           t = build_tree sess include_employees sort_employees_by department depth \<and>
           ordered_tree sort_employees_by t \<and>
           (\<forall>dept n. let node = build_tree sess include_employees sort_employees_by dept n in
              tr_department node = dept \<and>
              (n \<le> 0 \<longrightarrow> tr_children node = []) \<and>
              (n > 0 \<longrightarrow>
                 tr_children node =
                   map (\<lambda>child. build_tree sess include_employees sort_employees_by child (n - 1))
                     (sort_key (\<lambda>c. (d_name c, d_id c)) (children sess dept)) \<and>
                 mset (map tr_department (tr_children node)) = mset (children sess dept)) \<and>
              (include_employees \<longrightarrow> mset (tr_employees node) = mset (employees_of sess dept)) \<and>
              (\<not> include_employees \<longrightarrow> tr_employees node = []))"
proof -
  have "\<And>dept n. mset (map tr_department
            (map (\<lambda>child. build_tree sess include_employees sort_employees_by child (n - 1))
                     (sort_key (\<lambda>c. (d_name c, d_id c)) (children sess dept))))
          = mset (children sess dept)"
    by (simp add: comp_def)
  then show ?thesis
    using assms
    by (simp add: get_department_tree_def ordered_tree_build_tree Let_def
        tr_children_build_tree tr_employees_build_tree del: map_map)
qed

theorem get_department_tree_ordered_witness:
  "get_department_tree (open_session org_db) 2 1 True ''full_name''
     = Inr (DepartmentTreeResponse (mk_department 2 ''Backend'' (Some 1))
         [mk_employee 2 2 ''Alice'' 21, mk_employee 1 2 ''Bob'' 20]
         [DepartmentTreeResponse (mk_department 5 ''API'' (Some 2))
            [mk_employee 3 5 ''Carol'' 22] []]) \<and>
   ordered_tree ''full_name''
     (DepartmentTreeResponse (mk_department 2 ''Backend'' (Some 1))
         [mk_employee 2 2 ''Alice'' 21, mk_employee 1 2 ''Bob'' 20]
         [DepartmentTreeResponse (mk_department 5 ''API'' (Some 2))
            [mk_employee 3 5 ''Carol'' 22] []])"
proof -
  from get_department_tree_ordered [OF org_get_2, of 1 True "''full_name''"]
  obtain t where
    "get_department_tree (open_session org_db) 2 1 True ''full_name'' = Inr t"
    "t = build_tree (open_session org_db) True ''full_name'' (mk_department 2 ''Backend'' (Some 1)) 1"
    "ordered_tree ''full_name'' t"
    by blast
  then show ?thesis unfolding org_tree_2 by blast
qed

section \<open>Reachable stores\<close>

text \<open>
  The stores the service can produce: the empty store, and the store left by any call of
  \<^verbatim>\<open>create_department\<close>, \<^verbatim>\<open>create_employee\<close>, \<^verbatim>\<open>update_department\<close> or
  \<^verbatim>\<open>delete_department\<close>, with any arguments, made in a session of its own on a
  reachable store (an update counts when it returns).
\<close>

inductive reachable :: "db \<Rightarrow> bool" where
  start: "reachable empty_db"
| create_department_step:
    "reachable s \<Longrightarrow> reachable (db_close (snd (create_department (open_session s) data now)))"
| create_employee_step:
    "reachable s \<Longrightarrow>
       reachable (db_close (snd (create_employee (open_session s) department_id edata now)))"
| update_department_step:
    "reachable s \<Longrightarrow> update_department (open_session s) department_id udata = Some (r, sess') \<Longrightarrow>
       reachable (db_close sess')"
| delete_department_step:
    "reachable s \<Longrightarrow>
       reachable (db_close (snd (delete_department (open_session s) department_id mode target)))"

text \<open>Sibling names are unique: two different rows with the same parent, null included, differ in name.\<close>

definition sibling_names_unique :: "department list \<Rightarrow> bool" where
  "sibling_names_unique rows =
     (\<forall>a \<in> set rows. \<forall>b \<in> set rows.
        a \<noteq> b \<and> d_parent_id a = d_parent_id b \<longrightarrow> d_name a \<noteq> d_name b)"

text \<open>
  The invariant carried through the operations: the primary keys are distinct and below
  the id counter, and rows of different id under one parent differ in name.
\<close>

definition store_ok :: "db \<Rightarrow> bool" where
  "store_ok s =
     (distinct (map d_id (departments s)) \<and>
      (\<forall>d \<in> set (departments s). d_id d < departments_id_seq s) \<and>
      (\<forall>a \<in> set (departments s). \<forall>b \<in> set (departments s).
         d_id a \<noteq> d_id b \<and> d_parent_id a = d_parent_id b \<longrightarrow> d_name a \<noteq> d_name b))"

lemma store_ok_empty: "store_ok empty_db"
  by (simp add: store_ok_def empty_db_def)

lemma store_ok_create_department:
  assumes "store_ok s"
  shows "store_ok (db_close (snd (create_department (open_session s) data now)))"
proof (cases "fst (create_department (open_session s) data now)")
  case (Inl e)
  from create_department_error [OF Inl] assms show ?thesis
    by (simp add: db_close_def open_session_def)
next
  case (Inr d)
  then have nodup: "\<not> (\<exists>r \<in> set (departments s). d_name r = dc_name data \<and> d_parent_id r = dc_parent_id data)"
    and st: "db_close (snd (create_department (open_session s) data now)) =
      s\<lparr>departments := departments s @
            [\<lparr>d_id = departments_id_seq s, d_name = dc_name data,
              d_parent_id = dc_parent_id data, d_created_at = now\<rparr>],
         departments_id_seq := departments_id_seq s + 1\<rparr>"
    by (auto simp: create_department_def check_name_unique_under_parent_eq insert_department_def
        Let_def db_commit_def db_close_def open_session_def list_ex_iff
        split: if_splits sum.splits)
  show ?thesis
    unfolding st using assms nodup
    by (fastforce simp: store_ok_def)
qed

lemma store_ok_create_employee:
  assumes "store_ok s"
  shows "store_ok (db_close (snd (create_employee (open_session s) i data now)))"
  using assms
  by (auto simp: create_employee_def insert_employee_def Let_def db_commit_def db_close_def
      open_session_def store_ok_def)

lemma d_id_set_name_parent [simp]: "d_id (set_name_parent i n p d) = d_id d"
  by (simp add: set_name_parent_def)

lemma d_id_set_parent [simp]: "d_id (set_parent i t d) = d_id d"
  by (simp add: set_parent_def)

lemma store_ok_update_department:
  assumes ok: "store_ok s"
    and u: "update_department (open_session s) i data = Some (r, sess')"
  shows "store_ok (db_close sess')"
proof (cases "get_department (open_session s) i")
  case None
  with u ok show ?thesis by (auto simp: update_department_def db_close_def open_session_def)
next
  case (Some department)
  let ?n = "new_name data department" and ?p = "new_parent_id data department"
  from update_department_cases [OF u Some] show ?thesis
  proof
    assume "sess' = open_session s \<and> (\<exists>e. r = Inl e)"
    with ok show ?thesis by (simp add: db_close_def open_session_def)
  next
    assume w: "r = Inr (department\<lparr>d_name := ?n, d_parent_id := ?p\<rparr>) \<and>
               sess' = written (open_session s) i ?n ?p"
    then have "check_name_unique_under_parent (open_session s) ?n ?p (Some i) = Inr ()"
      using u Some
      by (auto simp: update_department_def Let_def split: option.splits if_splits sum.splits)
    then have free: "\<forall>d \<in> set (departments s). d_name d = ?n \<and> d_parent_id d = ?p \<longrightarrow> d_id d = i"
      by (auto simp: check_name_unique_under_parent_eq open_session_def split: if_splits)
    have st: "db_close sess' = s\<lparr>departments := map (set_name_parent i ?n ?p) (departments s)\<rparr>"
      using w by (simp add: written_def db_commit_def db_close_def open_session_def)
    have "\<forall>a \<in> set (departments s). \<forall>b \<in> set (departments s).
            d_id a \<noteq> d_id b \<and>
            d_parent_id (set_name_parent i ?n ?p a) = d_parent_id (set_name_parent i ?n ?p b)
            \<longrightarrow> d_name (set_name_parent i ?n ?p a) \<noteq> d_name (set_name_parent i ?n ?p b)"
      using ok free unfolding store_ok_def set_name_parent_def
      by (auto split: if_splits)
    then show ?thesis
      unfolding st using ok by (auto simp: store_ok_def comp_def)
  qed
qed

lemma reassign_children_accepted:
  assumes "reassign_children sess department_id target_id = Inr sess2"
  shows "\<forall>d \<in> set (departments (working sess)). d_parent_id d = Some department_id \<longrightarrow>
           row_accepted (map (set_parent department_id target_id) (departments (working sess)))
             (set_parent department_id target_id d)"
  using assms
  by (auto simp: reassign_children_def Let_def list_all_iff split: if_splits)

lemma store_ok_filter:
  assumes "store_ok s"
  shows "store_ok (s\<lparr>departments := filter P (departments s), employees := es\<rparr>)"
  using assms by (auto simp: store_ok_def distinct_map_filter)

lemma store_ok_delete_department:
  assumes ok: "store_ok s"
  shows "store_ok (db_close (snd (delete_department (open_session s) i mode target)))"
proof (cases "fst (delete_department (open_session s) i mode target)")
  case (Inl e)
  from delete_department_error [OF Inl] ok show ?thesis
    by (simp add: db_close_def open_session_def)
next
  case (Inr u)
  then obtain department where g: "get_department (open_session s) i = Some department"
    by (auto simp: delete_department_def split: option.splits)
  show ?thesis
  proof (cases "mode = ''cascade''")
    case True
    with Inr g have "db_delete (open_session s) department
        = Inr (delete_rows (open_session s) department)"
      by (auto simp: delete_department_def db_delete_eq split: if_splits)
    with True g have "db_close (snd (delete_department (open_session s) i mode target)) =
        s\<lparr>departments := filter (\<lambda>d. d_id d \<notin> subtree_ids (departments s) (d_id department))
                             (departments s),
          employees := filter (\<lambda>e. e_department_id e \<notin> subtree_ids (departments s) (d_id department))
                             (employees s)\<rparr>"
      by (simp add: delete_department_def delete_rows_eq db_commit_def db_close_def
          open_session_def)
    then show ?thesis using store_ok_filter [OF ok] by simp
  next
    case False
    with Inr g obtain t where t: "mode = ''reassign''" "target = Some t"
      by (auto simp: delete_department_def split: if_splits option.splits)
    obtain sess' where d: "delete_department (open_session s) i ''reassign'' (Some t) = (Inr (), sess')"
      using Inr t by (cases "delete_department (open_session s) i ''reassign'' (Some t)") auto
    from delete_reassign_Inr [OF d] obtain sess2 where
      r: "reassign_children (reassign_employees (open_session s) i t) i t = Inr sess2"
      and ti: "t \<noteq> i" by blast
    let ?rows = "map (set_parent i t) (departments s)"
    have w: "departments (working (reassign_employees (open_session s) i t)) = departments s"
      by (simp add: reassign_employees_eq open_session_def)
    have acc: "\<forall>d \<in> set (departments s). d_parent_id d = Some i \<longrightarrow>
                 row_accepted ?rows (set_parent i t d)"
      using reassign_children_accepted [OF r] unfolding w .
    have pair: "\<forall>a \<in> set (departments s). \<forall>b \<in> set (departments s).
            d_id a \<noteq> d_id b \<and> d_parent_id (set_parent i t a) = d_parent_id (set_parent i t b)
            \<longrightarrow> d_name (set_parent i t a) \<noteq> d_name (set_parent i t b)"
    proof (intro ballI impI)
      fix a b assume a: "a \<in> set (departments s)" and b: "b \<in> set (departments s)"
        and h: "d_id a \<noteq> d_id b \<and> d_parent_id (set_parent i t a) = d_parent_id (set_parent i t b)"
      show "d_name (set_parent i t a) \<noteq> d_name (set_parent i t b)"
      proof (cases "d_parent_id a = Some i \<or> d_parent_id b = Some i")
        case False
        then show ?thesis using ok a b h by (auto simp: store_ok_def set_parent_def)
      next
        case True
        then show ?thesis
        proof
          assume pa: "d_parent_id a = Some i"
          from bspec [OF acc a] pa
          have u: "\<forall>r' \<in> set ?rows. \<not> (d_id r' \<noteq> d_id (set_parent i t a) \<and>
                     d_name r' = d_name (set_parent i t a) \<and>
                     d_parent_id (set_parent i t a) \<noteq> None \<and>
                     d_parent_id r' = d_parent_id (set_parent i t a))"
            by (simp add: row_accepted_def uq_department_name_parent_def list_ex_iff)
          have m: "set_parent i t b \<in> set ?rows" using b by simp
          have n: "d_parent_id (set_parent i t a) \<noteq> None" using pa by (simp add: set_parent_def)
          from bspec [OF u m] h n show ?thesis by auto
        next
          assume pb: "d_parent_id b = Some i"
          from bspec [OF acc b] pb
          have u: "\<forall>r' \<in> set ?rows. \<not> (d_id r' \<noteq> d_id (set_parent i t b) \<and>
                     d_name r' = d_name (set_parent i t b) \<and>
                     d_parent_id (set_parent i t b) \<noteq> None \<and>
                     d_parent_id r' = d_parent_id (set_parent i t b))"
            by (simp add: row_accepted_def uq_department_name_parent_def list_ex_iff)
          have m: "set_parent i t a \<in> set ?rows" using a by simp
          have n: "d_parent_id (set_parent i t b) \<noteq> None" using pb by (simp add: set_parent_def)
          from bspec [OF u m] h n show ?thesis by auto
        qed
      qed
    qed
    have mid: "store_ok (s\<lparr>departments := ?rows\<rparr>)"
      using ok pair by (auto simp: store_ok_def comp_def)
    have "db_close (snd (delete_department (open_session s) i mode target)) =
        s\<lparr>departments := filter (\<lambda>d. d_id d \<noteq> i) ?rows,
          employees := map (move_employee i t) (employees s)\<rparr>"
    proof -
      from delete_reassign_Inr [OF d] obtain department2 sess3 where
        g2: "get_department (open_session s) i = Some department2"
        and r3: "reassign_children (reassign_employees (open_session s) i t) i t = Inr sess3"
        and s': "sess' = db_commit (delete_rows sess3 department2)" by blast
      have i2: "d_id department2 = i" using g2 get_department_Some by blast
      have s3: "sess3 = (open_session s)\<lparr>working := s\<lparr>
           employees := map (move_employee i t) (employees s), departments := ?rows\<rparr>\<rparr>"
        using reassign_children_Inr [OF r3] by (simp add: reassign_employees_eq open_session_def)
      have sub: "subtree_ids ?rows i = {i}"
        using cascade_ids_subtree [of ?rows i]
          cascade_ids_childless [OF child_ids_set_parent [OF ti], of "departments s"]
        by simp
      show ?thesis
        using d t
        by (simp add: s' s3 delete_rows_eq i2 sub db_commit_def db_close_def open_session_def
            filter_move_employee [OF ti])
    qed
    then show ?thesis
      using store_ok_filter [OF mid, where P = "\<lambda>d. d_id d \<noteq> i"
          and es = "map (move_employee i t) (employees s)"]
      by simp
  qed
qed

lemma reachable_store_ok: "reachable s \<Longrightarrow> store_ok s"
proof (induction rule: reachable.induct)
  case start
  show ?case by (rule store_ok_empty)
next
  case (create_department_step s data now)
  then show ?case by (simp add: store_ok_create_department)
next
  case (create_employee_step s department_id edata now)
  then show ?case by (simp add: store_ok_create_employee)
next
  case (update_department_step s department_id udata r sess')
  then show ?case using store_ok_update_department by blast
next
  case (delete_department_step s department_id mode target)
  then show ?case by (simp add: store_ok_delete_department)
qed

subsection \<open>Runs from the empty store\<close>

definition after_create :: "db \<Rightarrow> string \<Rightarrow> int option \<Rightarrow> db" where
  "after_create s name parent_id =
     db_close (snd (create_department (open_session s) \<lparr>dc_name = name, dc_parent_id = parent_id\<rparr> 0))"

definition after_delete :: "db \<Rightarrow> int \<Rightarrow> string \<Rightarrow> int option \<Rightarrow> db" where
  "after_delete s department_id mode target =
     db_close (snd (delete_department (open_session s) department_id mode target))"

definition self_parent_db :: db where
  "self_parent_db =
     after_delete (after_create (after_create empty_db ''A'' None) ''B'' (Some 1))
       1 ''reassign'' (Some 2)"

lemma reachable_after_create: "reachable s \<Longrightarrow> reachable (after_create s name parent_id)"
  unfolding after_create_def by (rule reachable.create_department_step)

lemma reachable_after_delete: "reachable s \<Longrightarrow> reachable (after_delete s i mode target)"
  unfolding after_delete_def by (rule reachable.delete_department_step)

lemmas run_eval = after_create_def after_delete_def create_department_def
  check_name_unique_under_parent_def insert_department_def delete_department_def
  reassign_children_def reassign_employees_def db_delete_def delete_rows_def cascade_cycle_def
  set_parent_def row_accepted_def
  uq_department_name_parent_def uq_departments_name_root_def child_ids_def
  get_department_def open_session_def db_commit_def db_close_def empty_db_def Let_def

lemma two_departments:
  "after_create (after_create empty_db ''A'' None) ''B'' (Some 1) =
     \<lparr>departments = [\<lparr>d_id = 1, d_name = ''A'', d_parent_id = None, d_created_at = 0\<rparr>,
                     \<lparr>d_id = 2, d_name = ''B'', d_parent_id = Some 1, d_created_at = 0\<rparr>],
      employees = [], departments_id_seq = 3, employees_id_seq = 1\<rparr>"
  by (simp add: run_eval)

lemma self_parent_db_eq:
  "self_parent_db =
     \<lparr>departments = [\<lparr>d_id = 2, d_name = ''B'', d_parent_id = Some 2, d_created_at = 0\<rparr>],
      employees = [], departments_id_seq = 3, employees_id_seq = 1\<rparr>"
  unfolding self_parent_db_def two_departments
  by (simp add: run_eval)

definition twin_api_db :: db where
  "twin_api_db =
     after_create (after_create (after_create (after_create (after_create empty_db
       ''Engineering'' None) ''Backend'' (Some 1)) ''Frontend'' (Some 1))
       ''API'' (Some 2)) ''API'' (Some 3)"

lemma twin_api_db_eq:
  "twin_api_db =
     \<lparr>departments = [\<lparr>d_id = 1, d_name = ''Engineering'', d_parent_id = None, d_created_at = 0\<rparr>,
                     \<lparr>d_id = 2, d_name = ''Backend'', d_parent_id = Some 1, d_created_at = 0\<rparr>,
                     \<lparr>d_id = 3, d_name = ''Frontend'', d_parent_id = Some 1, d_created_at = 0\<rparr>,
                     \<lparr>d_id = 4, d_name = ''API'', d_parent_id = Some 2, d_created_at = 0\<rparr>,
                     \<lparr>d_id = 5, d_name = ''API'', d_parent_id = Some 3, d_created_at = 0\<rparr>],
      employees = [], departments_id_seq = 6, employees_id_seq = 1\<rparr>"
  unfolding twin_api_db_def by (simp add: run_eval)

lemma twin_api_reassign_refused:
  "after_delete twin_api_db 2 ''reassign'' (Some 3) = twin_api_db"
  unfolding twin_api_db_eq by (simp add: run_eval)

section \<open>Sibling names stay unique\<close>

text \<open>
  Claim C3. In every reachable store, any two distinct departments with the same
  \<^verbatim>\<open>parent_id\<close> (both null included) have different names, and ids are distinct.
  \<^verbatim>\<open>create_department\<close> and \<^verbatim>\<open>update_department\<close> keep it by their own check; the
  reassign mode of \<^verbatim>\<open>delete_department\<close> makes no check of its own, and there the
  table's unique constraint on (name, parent_id) refuses the bulk update that would put
  two children of one name under the target: the call raises and commits nothing.
\<close>

theorem sibling_names_unique_reachable:
  assumes "reachable s"
  shows "sibling_names_unique (departments s) \<and> distinct (map d_id (departments s))"
proof -
  from reachable_store_ok [OF assms] have ok: "store_ok s" .
  then have d: "distinct (map d_id (departments s))" by (simp add: store_ok_def)
  have "\<And>a b. a \<in> set (departments s) \<Longrightarrow> b \<in> set (departments s) \<Longrightarrow> a \<noteq> b \<Longrightarrow> d_id a \<noteq> d_id b"
    using d by (meson distinct_map inj_onD)
  then show ?thesis
    using ok d unfolding sibling_names_unique_def store_ok_def by blast
qed

theorem sibling_names_unique_reachable_witness:
  "reachable (after_delete twin_api_db 2 ''reassign'' (Some 3)) \<and>
   sibling_names_unique (departments (after_delete twin_api_db 2 ''reassign'' (Some 3))) \<and>
   map (\<lambda>d. (d_name d, d_parent_id d)) (departments (after_delete twin_api_db 2 ''reassign'' (Some 3)))
     = [(''Engineering'', None), (''Backend'', Some 1), (''Frontend'', Some 1),
        (''API'', Some 2), (''API'', Some 3)]"
proof -
  have r: "reachable (after_delete twin_api_db 2 ''reassign'' (Some 3))"
    unfolding twin_api_db_def
    by (intro reachable_after_delete reachable_after_create reachable.start)
  from sibling_names_unique_reachable [OF r]
  have "sibling_names_unique (departments (after_delete twin_api_db 2 ''reassign'' (Some 3)))"
    by blast
  moreover have "map (\<lambda>d. (d_name d, d_parent_id d))
      (departments (after_delete twin_api_db 2 ''reassign'' (Some 3)))
     = [(''Engineering'', None), (''Backend'', Some 1), (''Frontend'', Some 1),
        (''API'', Some 2), (''API'', Some 3)]"
    unfolding twin_api_reassign_refused by (simp add: twin_api_db_eq)
  ultimately show ?thesis using r by blast
qed

section \<open>Reassigning to a descendant\<close>

text \<open>
  Claim C1 says that in every reachable store no department is its own ancestor, also
  after a reassign-delete with any target. \<^verbatim>\<open>delete_department\<close> does not look whether
  the target lies below the department it deletes (\<^verbatim>\<open>update_department\<close> does, for the
  new parent). Create A, create B under A, delete A in reassign mode with target B: the
  bulk update rewrites B's parent, which was A, to B. The store so reached holds B as its
  own parent.
\<close>

theorem reassign_to_child_makes_self_parent:
  "reachable self_parent_db \<and>
   get_department (open_session self_parent_db) 2
     = Some \<lparr>d_id = 2, d_name = ''B'', d_parent_id = Some 2, d_created_at = 0\<rparr> \<and>
   (2, 2) \<in> (child_rel (departments self_parent_db))\<^sup>+"
proof -
  have "reachable self_parent_db"
    unfolding self_parent_db_def
    by (intro reachable_after_delete reachable_after_create reachable.start)
  moreover have "(2, 2) \<in> child_rel (departments self_parent_db)"
    by (simp add: self_parent_db_eq child_rel_def)
  ultimately show ?thesis
    by (auto simp: self_parent_db_eq get_department_def open_session_def)
qed

text \<open>
  Claim C7 says that an update whose new parent names no department fails with
  \<^verbatim>\<open>DepartmentNotFoundError\<close>. The loop of \<^verbatim>\<open>_get_descendant_ids\<close> runs before that
  check and, remembering no id it has expanded, goes round a cycle for ever.
\<close>

lemma loop_self_child:
  assumes c: "child_ids rows x = [x]"
  shows "get_descendant_ids_loop rows [x] result = None"
proof (rule ccontr)
  assume "get_descendant_ids_loop rows [x] result \<noteq> None"
  then obtain y where y: "get_descendant_ids_loop rows [x] result = Some y" by blast
  have "\<not> (rows = rows \<and> [x] = [x])"
    by (rule get_descendant_ids_loop.raw_induct
          [where P = "\<lambda>r s res y. \<not> (r = rows \<and> s = [x])", OF _ y])
       (fastforce simp: c split: if_splits)
  then show False by simp
qed

text \<open>
  Claim C7, at the store above: department 2 exists, the requested parent 99 does not,
  and the call does not return.
\<close>

theorem update_after_self_parent_never_returns:
  "update_department (open_session self_parent_db) 2 \<lparr>du_name = None, du_parent_id = Some 99\<rparr>
     = None"
proof -
  have "child_ids (departments self_parent_db) 2 = [2]"
    by (simp add: self_parent_db_eq child_ids_def)
  then have "get_descendant_ids (open_session self_parent_db) 2 = None"
    by (simp add: get_descendant_ids_def open_session_def loop_self_child)
  then show ?thesis
    by (simp add: update_department_def new_parent_id_def Let_def get_department_def
        open_session_def self_parent_db_eq)
qed

text \<open>
  Claim C5 says that in every state a cascade delete of an existing department removes
  the department, all its descendants and their employees. At the store above,
  department 2 exists and is its own child, so it is among the rows to delete and is its
  own ancestor: the flush of \<^verbatim>\<open>db.commit()\<close> finds no order for the delete and raises
  \<^verbatim>\<open>CircularDependencyError\<close>; nothing is committed and the department is still
  there.
\<close>

theorem cascade_delete_of_self_parent_raises:
  "delete_department (open_session self_parent_db) 2 ''cascade'' None
     = (Inl CircularDependencyError, open_session self_parent_db) \<and>
   db_close (snd (delete_department (open_session self_parent_db) 2 ''cascade'' None))
     = self_parent_db \<and>
   get_department (open_session self_parent_db) 2
     = Some \<lparr>d_id = 2, d_name = ''B'', d_parent_id = Some 2, d_created_at = 0\<rparr>"
  by (simp add: self_parent_db_eq delete_department_def db_delete_def cascade_cycle_def
      child_ids_def get_department_def open_session_def db_close_def Let_def)

section \<open>The parent checks of an update on a store without cycles\<close>

text \<open>
  Where no department is its own ancestor the loop of \<^verbatim>\<open>_get_descendant_ids\<close> ends: each
  step replaces the id on top of the stack by its children, which lie strictly below it.
  It returns the ids reached from the department by following the children relation one
  or more times. Then \<^verbatim>\<open>update_department\<close> always returns, and its checks come in the
  order of claim C7: the department's own id and an id among its descendants give
  \<^verbatim>\<open>ConflictError\<close>, an id of no department gives \<^verbatim>\<open>DepartmentNotFoundError\<close>, and
  otherwise the outcome is that of the name check, after which the row is written (the
  table's indexes never refuse a row that passed the name check).
\<close>

lemma finite_child_rel: "finite (child_rel rows)"
proof -
  have "child_rel rows \<subseteq> (\<lambda>d. (the (d_parent_id d), d_id d)) ` set rows"
    by (force simp: child_rel_def)
  then show ?thesis by (rule finite_subset) simp
qed

lemma trancl_Image_step: "r\<^sup>+ `` {x} = r `` {x} \<union> r\<^sup>+ `` (r `` {x})"
  by (auto elim: converse_tranclE intro: trancl_into_trancl2)

lemma get_descendant_ids_loop_acyclic:
  assumes "acyclic (child_rel rows)"
  shows "get_descendant_ids_loop rows stack result
           = Some (result \<union> (child_rel rows)\<^sup>+ `` set stack)"
proof -
  let ?R = "child_rel rows"
  have wf: "wf (mult1 (?R\<inverse>))"
    by (rule wf_mult1) (rule finite_acyclic_wf_converse [OF finite_child_rel assms])
  have "\<forall>stack result. mset stack = M \<longrightarrow>
          get_descendant_ids_loop rows stack result = Some (result \<union> ?R\<^sup>+ `` set stack)" for M
  proof (induction M rule: wf_induct_rule [OF wf])
    case (1 M)
    show ?case
    proof (intro allI impI)
      fix stack :: "int list" and result :: "int set"
      assume M: "mset stack = M"
      show "get_descendant_ids_loop rows stack result = Some (result \<union> ?R\<^sup>+ `` set stack)"
      proof (cases "stack = []")
        case True
        then show ?thesis by (simp add: get_descendant_ids_loop.simps)
      next
        case False
        let ?x = "last stack" and ?rest = "butlast stack"
        let ?new = "?rest @ child_ids rows ?x"
        have st: "stack = ?rest @ [?x]" using False by simp
        have "mset stack = add_mset ?x (mset ?rest)"
          by (subst st) simp
        moreover have "mset ?new = mset ?rest + mset (child_ids rows ?x)" by simp
        moreover have "\<And>b. b \<in># mset (child_ids rows ?x) \<Longrightarrow> (b, ?x) \<in> ?R\<inverse>"
          using set_child_ids [of rows ?x] by auto
        ultimately have "(mset ?new, mset stack) \<in> mult1 (?R\<inverse>)"
          by (rule mult1I)
        with 1 M have ih: "get_descendant_ids_loop rows ?new (result \<union> set (child_ids rows ?x))
            = Some (result \<union> set (child_ids rows ?x) \<union> ?R\<^sup>+ `` set ?new)"
          by blast
        have "set stack = set ?rest \<union> {?x}" by (subst st) simp
        then have "?R\<^sup>+ `` set stack = ?R\<^sup>+ `` set ?rest \<union> ?R\<^sup>+ `` {?x}" by auto
        also have "?R\<^sup>+ `` {?x} = set (child_ids rows ?x) \<union> ?R\<^sup>+ `` set (child_ids rows ?x)"
          using trancl_Image_step [of ?R ?x] by (simp add: set_child_ids)
        finally have "result \<union> ?R\<^sup>+ `` set stack
            = result \<union> set (child_ids rows ?x) \<union> ?R\<^sup>+ `` set ?new"
          by auto
        with ih False show ?thesis
          by (subst get_descendant_ids_loop.simps) simp
      qed
    qed
  qed
  then show ?thesis by blast
qed

lemma get_descendant_ids_acyclic:
  "acyclic (child_rel (departments (working sess))) \<Longrightarrow>
     get_descendant_ids sess department_id
       = Some ((child_rel (departments (working sess)))\<^sup>+ `` {department_id})"
  by (simp add: get_descendant_ids_def get_descendant_ids_loop_acyclic)

lemma update_department_parent_checks:
  assumes "get_department sess department_id = Some department"
    and "acyclic (child_rel (departments (working sess)))"
  shows "(new_parent_id data department = Some department_id \<longrightarrow>
            update_department sess department_id data = Some (Inl ConflictError, sess)) \<and>
         (\<forall>p. new_parent_id data department = Some p \<and> p \<noteq> department_id \<longrightarrow>
            (p \<in> (child_rel (departments (working sess)))\<^sup>+ `` {department_id} \<longrightarrow>
               update_department sess department_id data = Some (Inl ConflictError, sess)) \<and>
            (p \<notin> (child_rel (departments (working sess)))\<^sup>+ `` {department_id} \<and>
             get_department sess p = None \<longrightarrow>
               update_department sess department_id data = Some (Inl DepartmentNotFoundError, sess))) \<and>
         (\<exists>outcome. update_department sess department_id data = Some outcome)"
  using assms
  by (auto simp: update_department_def Let_def get_descendant_ids_acyclic
      split: option.splits)

lemma in_map_set_name_parent:
  "r' \<in> set (map (set_name_parent i n p) rows) \<Longrightarrow> d_id r' \<noteq> i \<Longrightarrow> r' \<in> set rows"
  by (auto simp: set_name_parent_def split: if_splits)

lemma update_row_accepted:
  assumes "check_name_unique_under_parent sess name parent_id (Some (d_id department)) = Inr ()"
  shows "update_row sess department name parent_id =
           Inr (department\<lparr>d_name := name, d_parent_id := parent_id\<rparr>,
                sess\<lparr>working := (working sess)\<lparr>departments :=
                  map (set_name_parent (d_id department) name parent_id)
                    (departments (working sess))\<rparr>\<rparr>)"
proof -
  from assms have free: "\<forall>d \<in> set (departments (working sess)).
      d_name d = name \<and> d_parent_id d = parent_id \<longrightarrow> d_id d = d_id department"
    by (auto simp: check_name_unique_under_parent_eq split: if_splits)
  then have "row_accepted (map (set_name_parent (d_id department) name parent_id)
                 (departments (working sess)))
               (department\<lparr>d_name := name, d_parent_id := parent_id\<rparr>)"
    unfolding row_accepted_def uq_department_name_parent_def uq_departments_name_root_def
      list_ex_iff
    by (auto dest!: in_map_set_name_parent) (auto simp: set_name_parent_def)
  then show ?thesis by (simp add: update_row_def Let_def)
qed

lemma update_department_proceeds:
  assumes g: "get_department sess department_id = Some department"
    and ac: "acyclic (child_rel (departments (working sess)))"
    and p: "new_parent_id data department = None \<or>
            (\<exists>p. new_parent_id data department = Some p \<and> p \<noteq> department_id \<and>
                 p \<notin> (child_rel (departments (working sess)))\<^sup>+ `` {department_id} \<and>
                 get_department sess p \<noteq> None)"
  shows "update_department sess department_id data =
     (if \<exists>d \<in> set (departments (working sess)).
           d_name d = new_name data department \<and>
           d_parent_id d = new_parent_id data department \<and> d_id d \<noteq> department_id
      then Some (Inl ConflictError, sess)
      else Some (Inr (department\<lparr>d_name := new_name data department,
                                 d_parent_id := new_parent_id data department\<rparr>),
                 written sess department_id (new_name data department)
                   (new_parent_id data department)))"
proof -
  have i: "d_id department = department_id" using g get_department_Some by blast
  let ?n = "new_name data department" and ?p = "new_parent_id data department"
  let ?rest = "case check_name_unique_under_parent sess ?n ?p (Some department_id) of
                 Inl e \<Rightarrow> (Inl e, sess)
               | Inr _ \<Rightarrow> (case update_row sess department ?n ?p of
                            Inl e \<Rightarrow> (Inl e, sess)
                          | Inr (department', sess') \<Rightarrow> (Inr department', db_commit sess'))"
  have u: "update_department sess department_id data = Some ?rest"
    using g p by (auto simp: update_department_def Let_def get_descendant_ids_acyclic [OF ac])
  show ?thesis
  proof (cases "\<exists>d \<in> set (departments (working sess)).
           d_name d = ?n \<and> d_parent_id d = ?p \<and> d_id d \<noteq> department_id")
    case True
    then show ?thesis unfolding u by (simp add: check_name_unique_under_parent_eq)
  next
    case False
    then have c: "check_name_unique_under_parent sess ?n ?p (Some (d_id department)) = Inr ()"
      by (auto simp: check_name_unique_under_parent_eq i)
    show ?thesis
      unfolding u using False c update_row_accepted [OF c]
      by (simp add: i written_def)
  qed
qed

end
